theory Spec2Isabelle
  imports Complex_Main "HOL-Library.Sublist"
begin

section \<open>JavaScript strings and numbers\<close>

text \<open>
  Strings are \<^typ>\<open>string\<close>, and a \<^typ>\<open>char\<close> stands for a UTF-16 code unit
  below 256 (Basic Latin and Latin-1 Supplement); strings with other code units are
  outside the model. On this range \<open>String.prototype.toLowerCase\<close> maps \<open>A\<close> to
  \<open>Z\<close> and the Latin-1 capitals U+00C0 to U+00DE, the sign U+00D7 apart, to the code
  unit 32 above, and leaves every other code unit as it is.
\<close>

definition lower_char :: "char \<Rightarrow> char" where
  "lower_char c =
     (let n = (of_char c :: nat)
      in if (65 \<le> n \<and> n \<le> 90) \<or> (192 \<le> n \<and> n \<le> 222 \<and> n \<noteq> 215)
         then char_of (n + 32) else c)"

definition toLowerCase :: "string \<Rightarrow> string" where
  "toLowerCase s = map lower_char s"

text \<open>\<open>s.includes(t)\<close> and \<open>s.endsWith(t)\<close>.\<close>

definition str_includes :: "string \<Rightarrow> string \<Rightarrow> bool" where
  "str_includes s t = sublist t s"

definition endsWith :: "string \<Rightarrow> string \<Rightarrow> bool" where
  "endsWith s t = suffix t s"

text \<open>\<open>s.replace(pat, rep)\<close> with a string pattern: only the first occurrence is replaced.\<close>

fun replace_first :: "string \<Rightarrow> string \<Rightarrow> string \<Rightarrow> string" where
  "replace_first pat rep [] = (if pat = [] then rep else [])"
| "replace_first pat rep (c # cs) =
     (if prefix pat (c # cs) then rep @ drop (length pat) (c # cs)
      else c # replace_first pat rep cs)"

text \<open>\<open>s.lastIndexOf(c)\<close> for a single character; \<open>None\<close> stands for \<open>-1\<close>.\<close>

fun lastIndexOf :: "string \<Rightarrow> char \<Rightarrow> nat option" where
  "lastIndexOf [] c = None"
| "lastIndexOf (x # xs) c =
     (case lastIndexOf xs c of
        Some i \<Rightarrow> Some (Suc i)
      | None \<Rightarrow> if x = c then Some 0 else None)"

text \<open>\<open>xs.slice(a, b)\<close> for \<open>0 \<le> a \<le> b\<close>.\<close>

definition slice :: "'a list \<Rightarrow> nat \<Rightarrow> nat \<Rightarrow> 'a list" where
  "slice xs a b = take (b - a) (drop a xs)"

text \<open>Decimal rendering of a non-negative integer, as a template literal does it.\<close>

definition digit_char :: "nat \<Rightarrow> char" where
  "digit_char d = char_of (48 + d)"

fun show_nat :: "nat \<Rightarrow> string" where
  "show_nat n = (if n < 10 then [digit_char n] else show_nat (n div 10) @ [digit_char (n mod 10)])"

declare show_nat.simps [simp del]

text \<open>
  \<open>parseInt(s, 10)\<close>: leading white space is skipped, one sign is accepted, then the
  longest run of decimal digits is read and everything after it is ignored. No digit at
  all gives \<open>NaN\<close>, here \<open>None\<close>. The white space and line terminators of the
  language below 256 are the code units 9 to 13, 32 and 160 (the no-break space).
\<close>

definition is_space :: "char \<Rightarrow> bool" where
  "is_space c = ((of_char c :: nat) \<in> {9, 10, 11, 12, 13, 32, 160})"

definition is_digit :: "char \<Rightarrow> bool" where
  "is_digit c = (let n = (of_char c :: nat) in 48 \<le> n \<and> n \<le> 57)"

definition digits_val :: "string \<Rightarrow> nat" where
  "digits_val s = foldl (\<lambda>a c. 10 * a + ((of_char c :: nat) - 48)) 0 s"

definition parseInt10 :: "string \<Rightarrow> int option" where
  "parseInt10 s =
     (let t = dropWhile is_space s;
          neg = (t \<noteq> [] \<and> hd t = CHR ''-'');
          u = (if t \<noteq> [] \<and> (hd t = CHR ''-'' \<or> hd t = CHR ''+'') then tl t else t);
          z = takeWhile is_digit u
      in if z = [] then None
         else Some (if neg then - int (digits_val z) else int (digits_val z)))"

section \<open>Site configuration (site-config)\<close>

datatype error = Error string

text \<open>
  \<open>SITE_CONFIG_DATA\<close> is replaced at build time, so it is a parameter. Only the fields
  the URL functions read are kept. A missing or empty \<open>domain\<close> is falsy.
\<close>

record SiteConfigData =
  data_domain :: "string option"
  data_useSubdomains :: "bool option"

record SiteConfig =
  domain :: string
  useSubdomainsFlag :: "bool option"

definition DEFAULT_domain :: string where
  "DEFAULT_domain = ''example.com''"

text \<open>
  \<open>getSiteConfig\<close> caches its result; the data never changes, so the cached value is
  the computed one.
\<close>

definition getSiteConfig :: "SiteConfigData \<Rightarrow> SiteConfig" where
  "getSiteConfig d =
     \<lparr> domain = (case data_domain d of
                   None \<Rightarrow> DEFAULT_domain
                 | Some s \<Rightarrow> if s = [] then DEFAULT_domain else s),
       useSubdomainsFlag = data_useSubdomains d \<rparr>"

definition getDomain :: "SiteConfigData \<Rightarrow> string" where
  "getDomain d = domain (getSiteConfig d)"

definition getSiteURL :: "SiteConfigData \<Rightarrow> error + string" where
  "getSiteURL d =
     (let dom = getDomain d in
      if dom = [] \<or> dom = ''example.com'' \<or> str_includes dom ''example''
      then Inl (Error (''Domain not properly configured for site. Expected unique domain, got: '' @ dom))
      else Inr (''https://'' @ dom))"

definition useSubdomains :: "SiteConfigData \<Rightarrow> bool" where
  "useSubdomains d =
     (case useSubdomainsFlag (getSiteConfig d) of
        Some b \<Rightarrow> b
      | None \<Rightarrow> getDomain d = ''free-government-phone.org'' \<or> getDomain d = ''government-phone.org'')"

record subdomain_info =
  city :: string
  state :: string

definition parseSubdomain :: "SiteConfigData \<Rightarrow> string \<Rightarrow> subdomain_info option" where
  "parseSubdomain d hostname =
     (let dom = getDomain d in
      if \<not> useSubdomains d then None
      else
        let host = toLowerCase (takeWhile (\<lambda>c. c \<noteq> CHR '':'') hostname) in
        if \<not> endsWith host (CHR ''.'' # dom) then None
        else
          let subdomain = replace_first (CHR ''.'' # dom) [] host in
          if subdomain = ''www'' \<or> subdomain = [] then None
          else
            (case lastIndexOf subdomain (CHR ''-'') of
               None \<Rightarrow> None
             | Some lastHyphenIndex \<Rightarrow>
                 let citySlug = take lastHyphenIndex subdomain;
                     stateAbbr = drop (lastHyphenIndex + 1) subdomain
                 in if length stateAbbr \<noteq> 2 then None
                    else Some \<lparr> city = citySlug, state = toLowerCase stateAbbr \<rparr>))"

definition getStateSubdomainURL :: "SiteConfigData \<Rightarrow> string \<Rightarrow> string" where
  "getStateSubdomainURL d stateAbbr =
     (let dom = getDomain d in
      if \<not> useSubdomains d then ''https://'' @ dom @ ''/'' @ toLowerCase stateAbbr @ ''/''
      else ''https://'' @ toLowerCase stateAbbr @ ''.'' @ dom @ ''/'')"

definition getCitySubdomainURL :: "SiteConfigData \<Rightarrow> string \<Rightarrow> string \<Rightarrow> string" where
  "getCitySubdomainURL d citySlug stateAbbr =
     (let dom = getDomain d in
      if \<not> useSubdomains d
      then ''https://'' @ dom @ ''/'' @ toLowerCase stateAbbr @ ''/'' @ citySlug @ ''/''
      else ''https://'' @ citySlug @ ''-'' @ toLowerCase stateAbbr @ ''.'' @ dom @ ''/'')"

section \<open>The data source (supabase)\<close>

text \<open>
  The client is a parameter. A query either throws or resolves to its result object;
  the result of a range query carries \<open>data\<close> and \<open>error\<close>, either of which may be
  \<open>null\<close>. The client itself may be \<open>null\<close>.
\<close>

datatype state_ref = StateRef (ref_abbreviation: "string option")

datatype city_row = CityRow (row_name: "string option") (row_states: "state_ref option")

record city_record =
  name :: string
  state_abbr :: string

datatype cities_result =
    CitiesThrows
  | CitiesResult (res_data: "city_row list option") (res_error: "string option")

datatype count_result = CountThrows | CountResult "nat option"

record state_row =
  state_name :: string
  state_abbreviation :: string

datatype states_result = StatesThrows | StatesResult "state_row list option"

record supabase_client =
  cities_range :: "nat \<Rightarrow> nat \<Rightarrow> cities_result"
  cities_count :: count_result
  states_by_name :: states_result

text \<open>
  A stable data source: a fixed table of city rows in descending population order.
  \<open>range(a, b)\<close> answers with the rows at positions \<open>a\<close> to \<open>b\<close> inclusive, and the
  count query with the number of rows.
\<close>

definition table_client :: "city_row list \<Rightarrow> state_row list \<Rightarrow> supabase_client" where
  "table_client rows sts =
     \<lparr> cities_range = (\<lambda>a b. CitiesResult (Some (take (b + 1 - a) (drop a rows))) None),
       cities_count = CountResult (Some (length rows)),
       states_by_name = StatesResult (Some sts) \<rparr>"

section \<open>HTTP responses\<close>

record response =
  status :: nat
  body :: string
  headers :: "(string \<times> string) list"

definition xml_response :: "string \<Rightarrow> response" where
  "xml_response xml =
     \<lparr> status = 200, body = xml,
       headers = [(''Content-Type'', ''application/xml''),
                  (''Cache-Control'', ''public, max-age=3600'')] \<rparr>"

definition text_response :: "string \<Rightarrow> nat \<Rightarrow> response" where
  "text_response msg code = \<lparr> status = code, body = msg, headers = [] \<rparr>"

definition NL :: string where
  "NL = [CHR 0x0A]"

definition DQ :: string where
  "DQ = [CHR 0x22]"

text \<open>\<open>new Date().toISOString().split('T')[0]\<close>; the clock's ISO string is a parameter.\<close>

definition today_of :: "string \<Rightarrow> string" where
  "today_of now = takeWhile (\<lambda>c. c \<noteq> CHR ''T'') now"

definition xml_decl :: string where
  "xml_decl = ''<?xml version='' @ DQ @ ''1.0'' @ DQ @ '' encoding='' @ DQ @ ''UTF-8'' @ DQ @ ''?>'' @ NL"

definition sitemaps_ns :: string where
  "sitemaps_ns = ''xmlns='' @ DQ @ ''http://www.sitemaps.org/schemas/sitemap/0.9'' @ DQ"

section \<open>The sitemap index (sitemap.xml)\<close>

definition URLS_PER_SITEMAP :: nat where
  "URLS_PER_SITEMAP = 10000"

text \<open>
  Lines 26 to 28 of the handler, with the per-file capacity as a parameter:
  \<open>Math.ceil(count / capacity)\<close>, then \<open>Math.max(1, Math.min(n, 10))\<close>.
\<close>

definition calcSitemapCount :: "nat \<Rightarrow> nat \<Rightarrow> nat" where
  "calcSitemapCount capacity count =
     (let citySitemapCount = \<lceil>real count / real capacity\<rceil>
      in nat (max 1 (min citySitemapCount 10)))"

definition citySitemapCount :: "supabase_client option \<Rightarrow> nat" where
  "citySitemapCount supabase =
     (case supabase of
        None \<Rightarrow> 4
      | Some client \<Rightarrow>
          (case cities_count client of
             CountThrows \<Rightarrow> 4
           | CountResult None \<Rightarrow> 4
           | CountResult (Some count) \<Rightarrow> calcSitemapCount URLS_PER_SITEMAP count))"

definition sitemap_entry :: "string \<Rightarrow> string \<Rightarrow> string" where
  "sitemap_entry loc today =
     ''  <sitemap>'' @ NL @
     ''    <loc>'' @ loc @ ''</loc>'' @ NL @
     ''    <lastmod>'' @ today @ ''</lastmod>'' @ NL @
     ''  </sitemap>'' @ NL"

text \<open>The loop \<open>for (let i = 2; i <= citySitemapCount + 1; i++)\<close>.\<close>

function indexLoop :: "string \<Rightarrow> string \<Rightarrow> nat \<Rightarrow> nat \<Rightarrow> string \<Rightarrow> string" where
  "indexLoop SITE_URL today n i xml =
     (if i \<le> n + 1
      then indexLoop SITE_URL today n (i + 1)
             (xml @ sitemap_entry (SITE_URL @ ''/sitemap-'' @ show_nat i @ ''.xml'') today)
      else xml)"
  by pat_completeness auto
termination
  by (relation "measure (\<lambda>(SITE_URL, today, n, i, xml). n + 2 - i)") auto

declare indexLoop.simps [simp del]

definition sitemapIndexXML :: "string \<Rightarrow> string \<Rightarrow> nat \<Rightarrow> string" where
  "sitemapIndexXML SITE_URL today n =
     (let xml = xml_decl @ ''<sitemapindex '' @ sitemaps_ns @ ''>'' @ NL @
                sitemap_entry (SITE_URL @ ''/sitemap-main.xml'') today;
          xml = indexLoop SITE_URL today n 2 xml
      in xml @ ''</sitemapindex>'')"

definition GET_sitemap_index ::
  "SiteConfigData \<Rightarrow> string \<Rightarrow> supabase_client option \<Rightarrow> error + response" where
  "GET_sitemap_index d now supabase =
     (case getSiteURL d of
        Inl e \<Rightarrow> Inl e
      | Inr SITE_URL \<Rightarrow>
          Inr (xml_response (sitemapIndexXML SITE_URL (today_of now) (citySitemapCount supabase))))"

section \<open>The city page fetcher (sitemap-utils)\<close>

text \<open>
  \<open>createCitySlug\<close> comes from a module outside the sources at hand, so it is a
  parameter of everything that builds a city URL. The URL expression is the same in the
  fetcher and in the renderer.
\<close>

definition cityUrlFor ::
  "(string \<Rightarrow> string) \<Rightarrow> SiteConfigData \<Rightarrow> string \<Rightarrow> string \<Rightarrow> string \<Rightarrow> string" where
  "cityUrlFor createCitySlug d SITE_URL cityName stateAbbr =
     (let citySlug = createCitySlug cityName in
      if useSubdomains d then getCitySubdomainURL d citySlug (toLowerCase stateAbbr)
      else SITE_URL @ ''/'' @ toLowerCase stateAbbr @ ''/'' @ citySlug @ ''/'')"

definition pageSize :: nat where
  "pageSize = 1000"

definition maxPages :: nat where
  "maxPages = 50"

text \<open>
  The body of \<open>for (const city of data)\<close>. The state is the set \<open>cityUrls\<close> and the
  array \<open>deduplicatedCities\<close>.
\<close>

definition dedupStep ::
  "(string \<Rightarrow> string) \<Rightarrow> SiteConfigData \<Rightarrow> string \<Rightarrow> city_row \<Rightarrow>
   string set \<times> city_record list \<Rightarrow> string set \<times> city_record list" where
  "dedupStep createCitySlug d SITE_URL row st =
     (let cityName = (case row_name row of None \<Rightarrow> [] | Some n \<Rightarrow> n);
          stateAbbr = (case row_states row of
                         None \<Rightarrow> []
                       | Some s \<Rightarrow> (case ref_abbreviation s of None \<Rightarrow> [] | Some a \<Rightarrow> a))
      in if cityName = [] \<or> stateAbbr = [] then st
         else
           let cityUrl = cityUrlFor createCitySlug d SITE_URL cityName stateAbbr in
           if cityUrl \<in> fst st then st
           else (insert cityUrl (fst st),
                 snd st @ [\<lparr> name = cityName, state_abbr = stateAbbr \<rparr>]))"

text \<open>
  The \<open>while\<close> loop. \<open>Inl\<close> is an exception thrown by the query, which leaves the
  loop for the \<open>catch\<close> block.
\<close>

function fetchLoop ::
  "(string \<Rightarrow> string) \<Rightarrow> SiteConfigData \<Rightarrow> string \<Rightarrow> supabase_client \<Rightarrow> nat \<Rightarrow> nat \<Rightarrow>
   string set \<times> city_record list \<Rightarrow> unit + string set \<times> city_record list" where
  "fetchLoop createCitySlug d SITE_URL client need page st =
     (if length (snd st) < need \<and> page < maxPages then
        (let rangeStart = page * pageSize;
             rangeEnd = (page + 1) * pageSize - 1
         in case cities_range client rangeStart rangeEnd of
              CitiesThrows \<Rightarrow> Inl ()
            | CitiesResult data err \<Rightarrow>
                if err \<noteq> None then Inr st
                else
                  (case data of
                     None \<Rightarrow> Inr st
                   | Some rows \<Rightarrow>
                       if rows = [] then Inr st
                       else
                         let st' = fold (dedupStep createCitySlug d SITE_URL) rows st in
                         if length (snd st') \<ge> need \<or> length rows < pageSize then Inr st'
                         else fetchLoop createCitySlug d SITE_URL client need (page + 1) st'))
      else Inr st)"
  by pat_completeness auto
termination
  by (relation "measure (\<lambda>(createCitySlug, d, SITE_URL, client, need, page, st). maxPages - page)")
     auto

declare fetchLoop.simps [simp del]

definition getCitiesForSitemap ::
  "(string \<Rightarrow> string) \<Rightarrow> SiteConfigData \<Rightarrow> supabase_client option \<Rightarrow> nat \<Rightarrow> nat \<Rightarrow>
   error + city_record list" where
  "getCitiesForSitemap createCitySlug d supabase offset limit =
     (case getSiteURL d of
        Inl e \<Rightarrow> Inl e
      | Inr SITE_URL \<Rightarrow>
          (case supabase of
             None \<Rightarrow> Inr []
           | Some client \<Rightarrow>
               (case fetchLoop createCitySlug d SITE_URL client (offset + limit) 0 ({}, []) of
                  Inl _ \<Rightarrow> Inr []
                | Inr st \<Rightarrow> Inr (slice (snd st) offset (offset + limit)))))"

subsection \<open>The city sitemap document\<close>

definition url_entry :: "string \<Rightarrow> string \<Rightarrow> string \<Rightarrow> string \<Rightarrow> string" where
  "url_entry loc today changefreq priority =
     ''  <url>'' @ NL @
     ''    <loc>'' @ loc @ ''</loc>'' @ NL @
     ''    <lastmod>'' @ today @ ''</lastmod>'' @ NL @
     ''    <changefreq>'' @ changefreq @ ''</changefreq>'' @ NL @
     ''    <priority>'' @ priority @ ''</priority>'' @ NL @
     ''  </url>'' @ NL"

text \<open>The body of the renderer's loop; the state is its own set \<open>cityUrls\<close> and \<open>xml\<close>.\<close>

definition renderStep ::
  "(string \<Rightarrow> string) \<Rightarrow> SiteConfigData \<Rightarrow> string \<Rightarrow> string \<Rightarrow> city_record \<Rightarrow>
   string set \<times> string \<Rightarrow> string set \<times> string" where
  "renderStep createCitySlug d SITE_URL today c st =
     (let cityUrl = cityUrlFor createCitySlug d SITE_URL (name c) (state_abbr c) in
      if cityUrl \<in> fst st then st
      else (insert cityUrl (fst st), snd st @ url_entry cityUrl today ''weekly'' ''0.8''))"

definition generateCitySitemapXML ::
  "(string \<Rightarrow> string) \<Rightarrow> SiteConfigData \<Rightarrow> string \<Rightarrow> city_record list \<Rightarrow> error + string" where
  "generateCitySitemapXML createCitySlug d now cities =
     (case getSiteURL d of
        Inl e \<Rightarrow> Inl e
      | Inr SITE_URL \<Rightarrow>
          let today = today_of now;
              xml = xml_decl @ ''<urlset '' @ sitemaps_ns @ ''>'' @ NL;
              st = fold (renderStep createCitySlug d SITE_URL today) cities ({}, xml)
          in Inr (snd st @ ''</urlset>''))"

section \<open>The numbered sitemap route (sitemap-[num].xml)\<close>

definition staticPages :: "string list" where
  "staticPages =
     [[], ''/eligibility'', ''/programs'', ''/providers'', ''/faq'', ''/contact'', ''/apply'',
      ''/lifeline-program'', ''/acp-program'', ''/tribal-programs'', ''/state-programs'',
      ''/emergency-broadband'', ''/free-government-phone-near-me'', ''/states'']"

definition fetchStates :: "supabase_client option \<Rightarrow> state_row list" where
  "fetchStates supabase =
     (case supabase of
        None \<Rightarrow> []
      | Some client \<Rightarrow>
          (case states_by_name client of
             StatesThrows \<Rightarrow> []
           | StatesResult None \<Rightarrow> []
           | StatesResult (Some data) \<Rightarrow> data))"

definition mainSitemapXML ::
  "SiteConfigData \<Rightarrow> string \<Rightarrow> string \<Rightarrow> state_row list \<Rightarrow> string" where
  "mainSitemapXML d SITE_URL today states =
     (let xml = xml_decl @ ''<urlset '' @ sitemaps_ns @ ''>'' @ NL;
          xml = fold (\<lambda>page xml.
                   xml @ url_entry (SITE_URL @ page @ ''/'') today
                           (if page = [] then ''weekly'' else ''monthly'')
                           (if page = [] then ''1.0'' else ''0.8''))
                  staticPages xml;
          useSubdomainMode = useSubdomains d;
          xml = fold (\<lambda>st xml.
                   xml @ url_entry
                           (if useSubdomainMode
                            then getStateSubdomainURL d (toLowerCase (state_abbreviation st))
                            else SITE_URL @ ''/'' @ toLowerCase (state_abbreviation st) @ ''/'')
                           today ''weekly'' ''0.7'')
                  states xml
      in xml @ ''</urlset>'')"

text \<open>\<open>params.num\<close> may be missing; \<open>num || '2'\<close> replaces a missing or empty one.\<close>

definition GET_sitemap_num ::
  "(string \<Rightarrow> string) \<Rightarrow> SiteConfigData \<Rightarrow> string \<Rightarrow> supabase_client option \<Rightarrow>
   string option \<Rightarrow> error + response" where
  "GET_sitemap_num createCitySlug d now supabase num =
     (case getSiteURL d of
        Inl e \<Rightarrow> Inl e
      | Inr SITE_URL \<Rightarrow>
          if num = Some ''main''
          then Inr (xml_response (mainSitemapXML d SITE_URL (today_of now) (fetchStates supabase)))
          else
            (case parseInt10 (case num of None \<Rightarrow> ''2'' | Some s \<Rightarrow> if s = [] then ''2'' else s) of
               None \<Rightarrow> Inr (text_response ''Invalid sitemap number'' 404)
             | Some sitemapNum \<Rightarrow>
                 if sitemapNum < 2 then Inr (text_response ''Invalid sitemap number'' 404)
                 else
                   let offset = nat (sitemapNum - 2) * URLS_PER_SITEMAP in
                   (case getCitiesForSitemap createCitySlug d supabase offset URLS_PER_SITEMAP of
                      Inl e \<Rightarrow> Inr (text_response ''Error generating sitemap'' 500)
                    | Inr cities \<Rightarrow>
                        (case generateCitySitemapXML createCitySlug d now cities of
                           Inl e \<Rightarrow> Inr (text_response ''Error generating sitemap'' 500)
                         | Inr xml \<Rightarrow> Inr (xml_response xml)))))"

section \<open>Descriptions used in the statements\<close>

text \<open>
  Reading a document: the values of a tag are, for every place where the opening tag
  stands, the text after it up to the next \<open><\<close>.
\<close>

fun tag_values :: "string \<Rightarrow> string \<Rightarrow> string list" where
  "tag_values tag [] = []"
| "tag_values tag (c # cs) =
     (if prefix tag (c # cs)
      then takeWhile (\<lambda>x. x \<noteq> CHR ''<'') (drop (length tag) (c # cs)) # tag_values tag cs
      else tag_values tag cs)"

text \<open>
  A data source that answers the query for page \<open>p\<close> with the \<open>p\<close>-th entry of a
  script, and with an empty page once the script is over.
\<close>

definition scripted_client :: "cities_result list \<Rightarrow> supabase_client" where
  "scripted_client answers =
     \<lparr> cities_range = (\<lambda>a b. if a div pageSize < length answers
                               then answers ! (a div pageSize)
                               else CitiesResult (Some []) None),
       cities_count = CountThrows,
       states_by_name = StatesThrows \<rparr>"

text \<open>
  The fetcher as the specification words it. A row with an empty (or missing) name or
  state abbreviation is skipped; of the remaining records, one whose URL has already been
  produced is discarded, and the others are kept in order.
\<close>

definition rowCity :: "city_row \<Rightarrow> city_record option" where
  "rowCity row =
     (case row_name row of
        None \<Rightarrow> None
      | Some n \<Rightarrow>
          (case row_states row of
             None \<Rightarrow> None
           | Some s \<Rightarrow>
               (case ref_abbreviation s of
                  None \<Rightarrow> None
                | Some a \<Rightarrow>
                    if n = [] \<or> a = [] then None else Some \<lparr> name = n, state_abbr = a \<rparr>)))"

definition validCities :: "city_row list \<Rightarrow> city_record list" where
  "validCities rows = List.map_filter rowCity rows"

fun firstBy :: "('a \<Rightarrow> 'k) \<Rightarrow> 'k set \<Rightarrow> 'a list \<Rightarrow> 'a list" where
  "firstBy key seen [] = []"
| "firstBy key seen (x # xs) =
     (if key x \<in> seen then firstBy key seen xs
      else x # firstBy key (insert (key x) seen) xs)"

definition recordUrl ::
  "(string \<Rightarrow> string) \<Rightarrow> SiteConfigData \<Rightarrow> string \<Rightarrow> city_record \<Rightarrow> string" where
  "recordUrl createCitySlug d SITE_URL c =
     cityUrlFor createCitySlug d SITE_URL (name c) (state_abbr c)"

definition dedupedCities ::
  "(string \<Rightarrow> string) \<Rightarrow> SiteConfigData \<Rightarrow> string \<Rightarrow> city_row list \<Rightarrow> city_record list" where
  "dedupedCities createCitySlug d SITE_URL rows =
     firstBy (recordUrl createCitySlug d SITE_URL) {} (validCities rows)"

text \<open>
  The rows a client yields for one page (none when the query throws, reports an error or
  has no data), and all rows it yields over the pages the fetcher may ask for.
\<close>

definition pageRows :: "supabase_client \<Rightarrow> nat \<Rightarrow> city_row list" where
  "pageRows client page =
     (case cities_range client (page * pageSize) ((page + 1) * pageSize - 1) of
        CitiesThrows \<Rightarrow> []
      | CitiesResult data err \<Rightarrow>
          (case err of
             Some e \<Rightarrow> []
           | None \<Rightarrow> (case data of None \<Rightarrow> [] | Some rows \<Rightarrow> rows)))"

definition sourceRows :: "supabase_client option \<Rightarrow> city_row list" where
  "sourceRows supabase =
     (case supabase of
        None \<Rightarrow> []
      | Some client \<Rightarrow> concat (map (pageRows client) [0..<maxPages]))"

text \<open>The city sitemap document that lists exactly the given \<open><loc>\<close> values.\<close>

definition cityDocument :: "string \<Rightarrow> string list \<Rightarrow> string" where
  "cityDocument today locs =
     xml_decl @ ''<urlset '' @ sitemaps_ns @ ''>'' @ NL @
     concat (map (\<lambda>loc. url_entry loc today ''weekly'' ''0.8'') locs) @
     ''</urlset>''"

text \<open>
  The deduplicated records of the rows the fetcher can reach on a stable table: its loop
  asks for at most \<open>maxPages\<close> pages of \<open>pageSize\<close> rows.
\<close>

definition reachableCities ::
  "(string \<Rightarrow> string) \<Rightarrow> SiteConfigData \<Rightarrow> string \<Rightarrow> city_row list \<Rightarrow> city_record list" where
  "reachableCities createCitySlug d SITE_URL rows =
     dedupedCities createCitySlug d SITE_URL (take (maxPages * pageSize) rows)"

text \<open>The \<open><loc>\<close> values of the city document for the chunk at index \<open>i\<close> of a table.\<close>

definition chunkLocs ::
  "(string \<Rightarrow> string) \<Rightarrow> SiteConfigData \<Rightarrow> string \<Rightarrow> city_row list \<Rightarrow> nat \<Rightarrow> string list" where
  "chunkLocs createCitySlug d SITE_URL rows i =
     map (recordUrl createCitySlug d SITE_URL)
       (slice (reachableCities createCitySlug d SITE_URL rows)
          (i * URLS_PER_SITEMAP) (i * URLS_PER_SITEMAP + URLS_PER_SITEMAP))"

section \<open>URL construction refuses placeholder domains\<close>

lemma no_straddle:
  assumes "sublist ''example'' (''https://'' @ s)"
  shows "sublist ''example'' s"
proof -
  from assms have "sublist ''example'' ''https://'' \<or> sublist ''example'' s \<or>
      (\<exists>xs1 xs2. ''example'' = xs1 @ xs2 \<and> suffix xs1 ''https://'' \<and> prefix xs2 s)"
    by (simp only: sublist_append)
  moreover have "\<not> sublist ''example'' ''https://''"
  proof
    assume "sublist ''example'' ''https://''"
    then have "set ''example'' \<subseteq> set ''https://''" by (rule set_mono_sublist)
    then show False by simp
  qed
  moreover have "sublist ''example'' s"
    if h: "''example'' = xs1 @ xs2" "suffix xs1 ''https://''" "prefix xs2 s" for xs1 xs2
  proof (cases xs1)
    case Nil
    with h(1) have "xs2 = ''example''" by simp
    with h(3) show ?thesis by (simp add: prefix_imp_sublist)
  next
    case (Cons c r)
    with h(1) have "c = CHR ''e''" by simp
    moreover from h(2) have "set xs1 \<subseteq> set ''https://''" by (rule set_mono_suffix)
    ultimately show ?thesis using Cons by simp
  qed
  ultimately show ?thesis by blast
qed

lemma getDomain_cases:
  "getDomain d = (case data_domain d of None \<Rightarrow> ''example.com''
                  | Some s \<Rightarrow> if s = [] then ''example.com'' else s)"
  by (simp add: getDomain_def getSiteConfig_def DEFAULT_domain_def split: option.split)

lemma getDomain_nonempty: "getDomain d \<noteq> []"
  by (simp add: getDomain_cases split: option.split)

lemma getSiteURL_eq:
  "getSiteURL d =
     (if str_includes (getDomain d) ''example''
      then Inl (Error (''Domain not properly configured for site. Expected unique domain, got: '' @ getDomain d))
      else Inr (''https://'' @ getDomain d))"
proof -
  have a: "str_includes ''example.com'' ''example''" by code_simp
  show ?thesis
    unfolding getSiteURL_def Let_def using a getDomain_nonempty [of d]
    by (cases "getDomain d = ''example.com''") auto
qed

text \<open>
  Claim C8. When the configured domain is unset (missing or empty) or is a placeholder
  (it contains \<open>example\<close>), \<open>getSiteURL\<close> raises; whatever it returns never
  contains the placeholder; and for every other domain it returns \<open>https://\<close> followed
  by the domain.
\<close>

theorem getSiteURL_refuses_placeholder:
  "(data_domain d = None \<or> data_domain d = Some [] \<or>
      (\<exists>s. data_domain d = Some s \<and> str_includes s ''example'')
      \<longrightarrow> (\<exists>msg. getSiteURL d = Inl (Error msg)))
   \<and> (\<forall>u. getSiteURL d = Inr u \<longrightarrow> \<not> str_includes u ''example'')
   \<and> (\<forall>s. data_domain d = Some s \<and> s \<noteq> [] \<and> \<not> str_includes s ''example''
          \<longrightarrow> getSiteURL d = Inr (''https://'' @ s))"
proof (intro conjI allI impI)
  have a: "str_includes ''example.com'' ''example''" by code_simp
  assume "data_domain d = None \<or> data_domain d = Some [] \<or>
      (\<exists>s. data_domain d = Some s \<and> str_includes s ''example'')"
  then have "str_includes (getDomain d) ''example''"
    using a by (auto simp only: getDomain_cases option.case if_True if_False split: if_splits)
  then show "\<exists>msg. getSiteURL d = Inl (Error msg)"
    by (simp only: getSiteURL_eq if_True) blast
next
  fix u assume "getSiteURL d = Inr u"
  then have u: "u = ''https://'' @ getDomain d" and n: "\<not> sublist ''example'' (getDomain d)"
    by (cases "str_includes (getDomain d) ''example''"; simp add: getSiteURL_eq str_includes_def)+
  show "\<not> str_includes u ''example''"
    unfolding str_includes_def u using n no_straddle by blast
next
  fix s assume h: "data_domain d = Some s \<and> s \<noteq> [] \<and> \<not> str_includes s ''example''"
  then have "getDomain d = s" by (simp add: getDomain_cases)
  with h show "getSiteURL d = Inr (''https://'' @ s)"
    by (simp only: getSiteURL_eq if_False)
qed

theorem getSiteURL_refuses_placeholder_witness:
  "(\<exists>msg. getSiteURL \<lparr> data_domain = None, data_useSubdomains = None \<rparr> = Inl (Error msg))
   \<and> (\<exists>msg. getSiteURL \<lparr> data_domain = Some ''example.com'', data_useSubdomains = None \<rparr> = Inl (Error msg))
   \<and> getSiteURL \<lparr> data_domain = Some ''phones.org'', data_useSubdomains = None \<rparr> = Inr ''https://phones.org''"
proof -
  have a: "str_includes ''example.com'' ''example''" by code_simp
  have b: "\<not> str_includes ''phones.org'' ''example''" by code_simp
  have 1: "\<exists>msg. getSiteURL \<lparr> data_domain = None, data_useSubdomains = None \<rparr> = Inl (Error msg)"
    using getSiteURL_refuses_placeholder [of "\<lparr> data_domain = None, data_useSubdomains = None \<rparr>"]
    by simp
  have 2: "\<exists>msg. getSiteURL \<lparr> data_domain = Some ''example.com'', data_useSubdomains = None \<rparr> = Inl (Error msg)"
    using getSiteURL_refuses_placeholder [of "\<lparr> data_domain = Some ''example.com'', data_useSubdomains = None \<rparr>"] a
    by simp
  have 3: "getSiteURL \<lparr> data_domain = Some ''phones.org'', data_useSubdomains = None \<rparr> = Inr ''https://phones.org''"
    using getSiteURL_refuses_placeholder [of "\<lparr> data_domain = Some ''phones.org'', data_useSubdomains = None \<rparr>"] b
    by simp
  from 1 2 3 show ?thesis by blast
qed

section \<open>The file count of the sitemap index\<close>

lemma ceil_div_nat:
  fixes n c :: nat
  assumes "0 < c"
  shows "\<lceil>real n / real c\<rceil> = int ((n + c - 1) div c)"
proof (rule ceiling_unique)
  let ?k = "(n + c - 1) div c"
  have up: "n \<le> ?k * c"
  proof -
    have "n + c - 1 = ?k * c + (n + c - 1) mod c" by simp
    moreover have "(n + c - 1) mod c \<le> c - 1" using assms by (simp add: less_Suc_eq_le [symmetric])
    ultimately show ?thesis using assms by linarith
  qed
  have lo: "?k * c < n + c"
  proof -
    have "?k * c \<le> n + c - 1" by simp
    then show ?thesis using assms by linarith
  qed
  from up have "real n \<le> real (?k * c)" by (simp only: of_nat_le_iff)
  then show "real n / real c \<le> of_int (int ?k)"
    using assms by (simp add: divide_le_eq)
  from lo have "real (?k * c) < real (n + c)" by (simp only: of_nat_less_iff)
  then show "of_int (int ?k) - 1 < real n / real c"
    using assms by (simp add: less_divide_eq algebra_simps)
qed

lemma calcSitemapCount_div:
  assumes c: "0 < capacity"
  shows "calcSitemapCount capacity n = max 1 (min 10 ((n + capacity - 1) div capacity))"
proof -
  have "calcSitemapCount capacity n = nat (max 1 (min (int ((n + capacity - 1) div capacity)) 10))"
    by (simp add: calcSitemapCount_def ceil_div_nat [OF c])
  also have "\<dots> = max 1 (min 10 ((n + capacity - 1) div capacity))"
    by (simp add: max_def min_def)
  finally show ?thesis .
qed


lemma citySitemapCount_counted:
  "cities_count client = CountResult (Some n) \<Longrightarrow>
   citySitemapCount (Some client) = calcSitemapCount URLS_PER_SITEMAP n"
  by (simp add: citySitemapCount_def)

text \<open>
  Claim C3. For a positive capacity the estimate is the integer ceiling of
  \<open>totalRows / capacity\<close> clamped to the interval from 1 to 10; the four scenarios
  hold, and the index handler applies it with capacity 10000 to the count it obtained.
\<close>

theorem file_count_estimate:
  "0 < capacity \<Longrightarrow>
     calcSitemapCount capacity totalRows
       = max 1 (min 10 ((totalRows + capacity - 1) div capacity))
     \<and> 1 \<le> calcSitemapCount capacity totalRows
     \<and> calcSitemapCount capacity totalRows \<le> 10
     \<and> calcSitemapCount 10000 40000 = 4
     \<and> calcSitemapCount 10000 45000 = 5
     \<and> calcSitemapCount 10000 0 = 1
     \<and> calcSitemapCount 10000 1000000 = 10
     \<and> (cities_count client = CountResult (Some totalRows) \<longrightarrow>
          citySitemapCount (Some client) = calcSitemapCount 10000 totalRows)"
proof -
  assume c: "0 < capacity"
  have 1: "calcSitemapCount capacity totalRows
       = max 1 (min 10 ((totalRows + capacity - 1) div capacity))"
    by (rule calcSitemapCount_div [OF c])
  have 2: "1 \<le> calcSitemapCount capacity totalRows" by (simp add: 1)
  have 3: "calcSitemapCount capacity totalRows \<le> 10" by (simp add: 1)
  have 4: "calcSitemapCount 10000 40000 = 4" by (simp add: calcSitemapCount_div)
  have 5: "calcSitemapCount 10000 45000 = 5" by (simp add: calcSitemapCount_div)
  have 6: "calcSitemapCount 10000 0 = 1" by (simp add: calcSitemapCount_div)
  have 7: "calcSitemapCount 10000 1000000 = 10" by (simp add: calcSitemapCount_div)
  have 8: "cities_count client = CountResult (Some totalRows) \<longrightarrow>
          citySitemapCount (Some client) = calcSitemapCount 10000 totalRows"
    by (simp add: citySitemapCount_counted URLS_PER_SITEMAP_def)
  from 1 2 3 4 5 6 7 8 show ?thesis by blast
qed

theorem file_count_estimate_witness:
  "(0::nat) < 10000
   \<and> calcSitemapCount 10000 12345 = 2
   \<and> citySitemapCount (Some (table_client (replicate 12345 (CityRow None None)) [])) = 2"
proof -
  have h: "(0::nat) < 10000" by simp
  have t: "cities_count (table_client (replicate 12345 (CityRow None None)) [])
             = CountResult (Some 12345)"
    by (simp add: table_client_def)
  show ?thesis
    using file_count_estimate [OF h, of 12345 "table_client (replicate 12345 (CityRow None None)) []"] t
    by simp
qed

text \<open>
  Claim C7. When the client is absent, the count query throws, or it resolves without a
  count, the file count is the default 4, and the handler answers exactly as it does for
  4 files: the only error it can raise is the configuration error of \<open>getSiteURL\<close>.
\<close>

theorem count_unavailable_default:
  "supabase = None \<or>
   (\<exists>client. supabase = Some client \<and>
      (cities_count client = CountThrows \<or> cities_count client = CountResult None))
   \<Longrightarrow>
   citySitemapCount supabase = 4 \<and>
   GET_sitemap_index d now supabase =
     (case getSiteURL d of
        Inl e \<Rightarrow> Inl e
      | Inr u \<Rightarrow> Inr (xml_response (sitemapIndexXML u (today_of now) 4)))"
  by (auto simp: citySitemapCount_def GET_sitemap_index_def split: sum.splits)

theorem count_unavailable_default_witness:
  "citySitemapCount None = 4
   \<and> citySitemapCount (Some \<lparr> cities_range = (\<lambda>a b. CitiesThrows), cities_count = CountThrows,
                              states_by_name = StatesThrows \<rparr>) = 4
   \<and> citySitemapCount (Some \<lparr> cities_range = (\<lambda>a b. CitiesThrows),
                              cities_count = CountResult None,
                              states_by_name = StatesThrows \<rparr>) = 4
   \<and> GET_sitemap_index \<lparr> data_domain = Some ''phones.org'', data_useSubdomains = None \<rparr>
        ''2026-11-03T05:04:00.000Z''
        (Some \<lparr> cities_range = (\<lambda>a b. CitiesThrows), cities_count = CountThrows,
                 states_by_name = StatesThrows \<rparr>)
      = Inr (xml_response (sitemapIndexXML ''https://phones.org'' ''2026-11-03'' 4))"
proof -
  have b: "\<not> str_includes ''phones.org'' ''example''" by code_simp
  have u: "getSiteURL \<lparr> data_domain = Some ''phones.org'', data_useSubdomains = None \<rparr>
             = Inr ''https://phones.org''"
    using b by (simp add: getSiteURL_eq getDomain_cases)
  have t: "today_of ''2026-11-03T05:04:00.000Z'' = ''2026-11-03''"
    by (simp add: today_of_def)
  show ?thesis
    using count_unavailable_default [of None]
      count_unavailable_default [of "Some \<lparr> cities_range = (\<lambda>a b. CitiesThrows),
         cities_count = CountThrows, states_by_name = StatesThrows \<rparr>"
         "\<lparr> data_domain = Some ''phones.org'', data_useSubdomains = None \<rparr>"
         "''2026-11-03T05:04:00.000Z''"]
      count_unavailable_default [of "Some \<lparr> cities_range = (\<lambda>a b. CitiesThrows),
         cities_count = CountResult None, states_by_name = StatesThrows \<rparr>"]
      u t
    by simp
qed

section \<open>Deduplication\<close>

lemma firstBy_append:
  "firstBy key seen (xs @ ys) =
     firstBy key seen xs @ firstBy key (seen \<union> key ` set xs) ys"
proof (induction xs arbitrary: seen)
  case Nil
  then show ?case by simp
next
  case (Cons x xs)
  show ?case
  proof (cases "key x \<in> seen")
    case True
    then have "seen \<union> key ` set (x # xs) = seen \<union> key ` set xs" by auto
    with True Cons show ?thesis by simp
  next
    case False
    have "insert (key x) seen \<union> key ` set xs = seen \<union> key ` set (x # xs)" by auto
    with False Cons show ?thesis by simp
  qed
qed

lemma firstBy_keys: "key ` set (firstBy key seen xs) = key ` set xs - seen"
  by (induction xs arbitrary: seen) auto

lemma firstBy_distinct: "distinct (map key (firstBy key seen xs))"
proof (induction xs arbitrary: seen)
  case Nil
  then show ?case by simp
next
  case (Cons x xs)
  have "key x \<notin> key ` set (firstBy key (insert (key x) seen) xs)"
    by (simp add: firstBy_keys)
  with Cons show ?case by simp
qed

lemma firstBy_subseq: "subseq (firstBy key seen xs) xs"
  by (induction xs arbitrary: seen) auto


lemma firstBy_length: "length (firstBy key seen xs) \<le> length xs"
  by (induction xs arbitrary: seen) (auto simp: le_SucI)

lemma firstBy_distinct_id:
  "distinct (map key xs) \<Longrightarrow> key ` set xs \<inter> seen = {} \<Longrightarrow> firstBy key seen xs = xs"
  by (induction xs arbitrary: seen) auto

lemma firstBy_map: "firstBy id seen (map key xs) = map key (firstBy key seen xs)"
  by (induction xs arbitrary: seen) auto

lemma validCities_append: "validCities (xs @ ys) = validCities xs @ validCities ys"
  by (simp add: validCities_def List.map_filter_def)



lemma validCities_length: "length (validCities rows) \<le> length rows"
  by (simp add: validCities_def List.map_filter_def)

lemma dedupStep_eq:
  "dedupStep slugf d u row st =
     (case rowCity row of
        None \<Rightarrow> st
      | Some c \<Rightarrow>
          if recordUrl slugf d u c \<in> fst st then st
          else (insert (recordUrl slugf d u c) (fst st), snd st @ [c]))"
  by (cases row; cases "row_name row"; cases "row_states row")
     (auto simp: dedupStep_def rowCity_def recordUrl_def Let_def split: option.splits)

lemma fold_dedupStep:
  "fold (dedupStep slugf d u) rows (seen, acc) =
     (seen \<union> recordUrl slugf d u ` set (validCities rows),
      acc @ firstBy (recordUrl slugf d u) seen (validCities rows))"
proof (induction rows arbitrary: seen acc)
  case Nil
  then show ?case by (simp add: validCities_def)
next
  case (Cons row rows)
  show ?case
  proof (cases "rowCity row")
    case None
    with Cons show ?thesis by (simp add: dedupStep_eq validCities_def)
  next
    case (Some c)
    show ?thesis
    proof (cases "recordUrl slugf d u c \<in> seen")
      case True
      then have "seen \<union> recordUrl slugf d u ` set (c # validCities rows)
                   = seen \<union> recordUrl slugf d u ` set (validCities rows)" by auto
      with True Some Cons show ?thesis by (simp add: dedupStep_eq validCities_def)
    next
      case False
      with Some Cons show ?thesis by (simp add: dedupStep_eq validCities_def)
    qed
  qed
qed

lemma snd_fold_dedupStep:
  "snd (fold (dedupStep slugf d u) rows st) =
     snd st @ firstBy (recordUrl slugf d u) (fst st) (validCities rows)"
  by (cases st) (simp add: fold_dedupStep)

lemma fst_fold_dedupStep:
  "fst (fold (dedupStep slugf d u) rows st) =
     fst st \<union> recordUrl slugf d u ` set (validCities rows)"
  by (cases st) (simp add: fold_dedupStep)

section \<open>The fetch loop\<close>

lemma fetchLoop_step:
  "fetchLoop slugf d u client need page st =
     (if length (snd st) < need \<and> page < maxPages then
        (case cities_range client (page * pageSize) ((page + 1) * pageSize - 1) of
           CitiesThrows \<Rightarrow> Inl ()
         | CitiesResult data err \<Rightarrow>
             if err \<noteq> None then Inr st
             else
               (case data of
                  None \<Rightarrow> Inr st
                | Some rows \<Rightarrow>
                    if rows = [] then Inr st
                    else if length (snd (fold (dedupStep slugf d u) rows st)) \<ge> need
                            \<or> length rows < pageSize
                         then Inr (fold (dedupStep slugf d u) rows st)
                         else fetchLoop slugf d u client need (page + 1)
                                (fold (dedupStep slugf d u) rows st)))
      else Inr st)"
  by (subst fetchLoop.simps) (simp add: Let_def split: cities_result.split option.split)

lemma fetchLoop_stop:
  "\<not> (length (snd st) < need \<and> page < maxPages) \<Longrightarrow>
   fetchLoop slugf d u client need page st = Inr st"
  by (subst fetchLoop_step, rule if_not_P)

lemma fetchLoop_fetched:
  assumes "fetchLoop slugf d u client need page st = Inr st'" and "page \<le> maxPages"
  shows "\<exists>n. page + n \<le> maxPages \<and>
           st' = fold (dedupStep slugf d u) (concat (map (pageRows client) [page..<page + n])) st"
  using assms
proof (induction "maxPages - page" arbitrary: page st)
  case 0
  then have "fetchLoop slugf d u client need page st = Inr st"
    by (subst fetchLoop_step) simp
  with 0 have "st' = st" by simp
  then have "page + 0 \<le> maxPages \<and>
      st' = fold (dedupStep slugf d u) (concat (map (pageRows client) [page..<page + 0])) st"
    using 0 by simp
  then show ?case by blast
next
  case (Suc m)
  then have lt: "page < maxPages" by simp
  let ?q = "cities_range client (page * pageSize) ((page + 1) * pageSize - 1)"
  let ?rows = "pageRows client page"
  let ?st1 = "fold (dedupStep slugf d u) ?rows st"
  have zero: "st' = st \<Longrightarrow> ?case"
  proof -
    assume "st' = st"
    then have "page + 0 \<le> maxPages \<and>
      st' = fold (dedupStep slugf d u) (concat (map (pageRows client) [page..<page + 0])) st"
      using lt by simp
    then show ?case by blast
  qed
  have one: "st' = ?st1 \<Longrightarrow> ?case"
  proof -
    assume "st' = ?st1"
    then have "page + 1 \<le> maxPages \<and>
      st' = fold (dedupStep slugf d u) (concat (map (pageRows client) [page..<page + 1])) st"
      using lt by simp
    then show ?case by blast
  qed
  show ?case
  proof (cases "length (snd st) < need")
    case False
    then have "fetchLoop slugf d u client need page st = Inr st"
      by (subst fetchLoop_step) simp
    with Suc.prems show ?thesis by (intro zero) simp
  next
    case True
    note need = this
    show ?thesis
    proof (cases ?q)
      case CitiesThrows
      with need lt have "fetchLoop slugf d u client need page st = Inl ()"
        by (subst fetchLoop_step) simp
      with Suc.prems show ?thesis by simp
    next
      case (CitiesResult data err)
      show ?thesis
      proof (cases "err = None \<and> data \<noteq> None \<and> data \<noteq> Some []")
        case False
        with CitiesResult need lt have "fetchLoop slugf d u client need page st = Inr st"
          by (subst fetchLoop_step) (auto split: option.splits)
        with Suc.prems show ?thesis by (intro zero) simp
      next
        case True
        then obtain rows where rows: "err = None" "data = Some rows" "rows \<noteq> []" by auto
        with CitiesResult have pr: "?rows = rows" by (simp add: pageRows_def)
        show ?thesis
        proof (cases "length (snd ?st1) \<ge> need \<or> length rows < pageSize")
          case True
          with CitiesResult rows need lt pr
          have "fetchLoop slugf d u client need page st = Inr ?st1"
            by (subst fetchLoop_step) simp
          with Suc.prems show ?thesis by (intro one) simp
        next
          case False
          with CitiesResult rows need lt pr
          have "fetchLoop slugf d u client need page st =
                  fetchLoop slugf d u client need (page + 1) ?st1"
            by (subst fetchLoop_step) simp
          with Suc.prems have r: "fetchLoop slugf d u client need (page + 1) ?st1 = Inr st'"
            by simp
          have "m = maxPages - (page + 1)" using Suc.hyps(2) by simp
          from Suc.hyps(1) [OF this r] lt
          obtain n where n: "page + 1 + n \<le> maxPages"
            "st' = fold (dedupStep slugf d u)
                     (concat (map (pageRows client) [page + 1..<page + 1 + n])) ?st1"
            by auto
          have "[page..<page + (n + 1)] = page # [page + 1..<page + 1 + n]"
            by (simp add: upt_conv_Cons)
          with n have "page + (n + 1) \<le> maxPages \<and>
             st' = fold (dedupStep slugf d u)
                     (concat (map (pageRows client) [page..<page + (n + 1)])) st"
            by simp
          then show ?thesis by blast
        qed
      qed
    qed
  qed
qed


lemma fetchLoop_healthy:
  assumes healthy: "\<And>p. page \<le> p \<Longrightarrow> p < k \<Longrightarrow>
             cities_range client (p * pageSize) ((p + 1) * pageSize - 1)
               = CitiesResult (Some (B p)) None \<and> length (B p) = pageSize"
    and stop: "(k = maxPages \<and> T = []) \<or>
               (k < maxPages \<and>
                (\<exists>data err. cities_range client (k * pageSize) ((k + 1) * pageSize - 1)
                               = CitiesResult data err \<and>
                   ((err \<noteq> None \<and> T = []) \<or> (err = None \<and> data = None \<and> T = []) \<or>
                    (err = None \<and> data = Some T \<and> length T < pageSize))))"
    and le: "page \<le> k"
  shows "\<exists>st'. fetchLoop slugf d u client need page st = Inr st' \<and>
           prefix (snd st') (snd (fold (dedupStep slugf d u) (concat (map B [page..<k]) @ T) st)) \<and>
           (need \<le> length (snd st') \<or>
            snd st' = snd (fold (dedupStep slugf d u) (concat (map B [page..<k]) @ T) st))"
  using healthy le
proof (induction "k - page" arbitrary: page st)
  case 0
  then have pk: "page = k" by simp
  define full where "full = fold (dedupStep slugf d u) (concat (map B [page..<k]) @ T) st"
  have full: "full = fold (dedupStep slugf d u) T st" unfolding full_def using pk by simp
  have pre: "prefix (snd st) (snd full)"
    unfolding full by (simp add: snd_fold_dedupStep)
  have ret: "\<exists>st'. fetchLoop slugf d u client need page st = Inr st' \<and>
           prefix (snd st') (snd full) \<and> (need \<le> length (snd st') \<or> snd st' = snd full)"
    if a: "fetchLoop slugf d u client need page st = Inr st"
      and b: "need \<le> length (snd st) \<or> T = []"
  proof -
    from b have "need \<le> length (snd st) \<or> snd st = snd full" unfolding full by auto
    with a pre show ?thesis by blast
  qed
  have "\<exists>st'. fetchLoop slugf d u client need page st = Inr st' \<and>
           prefix (snd st') (snd full) \<and> (need \<le> length (snd st') \<or> snd st' = snd full)"
  proof (cases "length (snd st) < need \<and> page < maxPages")
    case False
    then have r: "fetchLoop slugf d u client need page st = Inr st"
      by (rule fetchLoop_stop)
    from False stop pk have "need \<le> length (snd st) \<or> T = []" by auto
    with r show ?thesis by (rule ret)
  next
    case True
    with stop pk obtain data err where
      q: "cities_range client (page * pageSize) ((page + 1) * pageSize - 1) = CitiesResult data err"
      and c: "(err \<noteq> None \<and> T = []) \<or> (err = None \<and> data = None \<and> T = []) \<or>
              (err = None \<and> data = Some T \<and> length T < pageSize)"
      by auto
    show ?thesis
    proof (cases "T = []")
      case True
      with c q \<open>length (snd st) < need \<and> page < maxPages\<close>
      have "fetchLoop slugf d u client need page st = Inr st"
        by (subst fetchLoop_step) auto
      then show ?thesis using True by (intro ret) simp_all
    next
      case False
      with c have c': "err = None" "data = Some T" "length T < pageSize" by auto
      with q False \<open>length (snd st) < need \<and> page < maxPages\<close>
      have "fetchLoop slugf d u client need page st = Inr (fold (dedupStep slugf d u) T st)"
        by (subst fetchLoop_step) simp
      then show ?thesis unfolding full by simp
    qed
  qed
  then show ?case unfolding full_def .
next
  case (Suc m)
  then have lt: "page < k" by simp
  with stop have ltm: "page < maxPages" by auto
  define full where "full = fold (dedupStep slugf d u) (concat (map B [page..<k]) @ T) st"
  define st1 where "st1 = fold (dedupStep slugf d u) (B page) st"
  have q: "cities_range client (page * pageSize) ((page + 1) * pageSize - 1)
             = CitiesResult (Some (B page)) None"
    and len: "length (B page) = pageSize"
    using Suc.prems(1) [of page] lt by auto
  have ne: "B page \<noteq> []" using len by (auto simp: pageSize_def)
  have upt: "[page..<k] = page # [page + 1..<k]" using lt by (simp add: upt_conv_Cons)
  have full: "full = fold (dedupStep slugf d u) (concat (map B [page + 1..<k]) @ T) st1"
    unfolding full_def st1_def by (simp add: upt)
  have pre1: "prefix (snd st1) (snd full)"
    unfolding full by (simp add: snd_fold_dedupStep del: fold_append)
  have pre0: "prefix (snd st) (snd full)"
    unfolding full_def by (simp add: snd_fold_dedupStep del: fold_append)
  have "\<exists>st'. fetchLoop slugf d u client need page st = Inr st' \<and>
           prefix (snd st') (snd full) \<and> (need \<le> length (snd st') \<or> snd st' = snd full)"
  proof (cases "length (snd st) < need")
    case False
    then have "fetchLoop slugf d u client need page st = Inr st"
      by (subst fetchLoop_step) simp
    with pre0 False show ?thesis by auto
  next
    case True
    show ?thesis
    proof (cases "need \<le> length (snd st1)")
      case True
      with q len ne ltm \<open>length (snd st) < need\<close>
      have "fetchLoop slugf d u client need page st = Inr st1"
        unfolding st1_def by (subst fetchLoop_step) simp
      with pre1 True show ?thesis by auto
    next
      case False
      with q len ne ltm \<open>length (snd st) < need\<close>
      have r: "fetchLoop slugf d u client need page st =
               fetchLoop slugf d u client need (page + 1) st1"
        unfolding st1_def by (subst fetchLoop_step) simp
      have m: "m = k - (page + 1)" using Suc.hyps(2) by simp
      have h: "\<And>p. page + 1 \<le> p \<Longrightarrow> p < k \<Longrightarrow>
             cities_range client (p * pageSize) ((p + 1) * pageSize - 1)
               = CitiesResult (Some (B p)) None \<and> length (B p) = pageSize"
        using Suc.prems(1) by simp
      have "page + 1 \<le> k" using lt by simp
      from Suc.hyps(1) [OF m h this, of st1] show ?thesis
        unfolding r full .
    qed
  qed
  then show ?case unfolding full_def .
qed

lemma slice_drop_take: "slice xs a (a + l) = drop a (take (a + l) xs)"
  by (simp add: slice_def drop_take)

lemma slice_of_enough:
  assumes "prefix ys zs" and "need \<le> length ys \<or> ys = zs" and "a + l \<le> need"
  shows "slice ys a (a + l) = slice zs a (a + l)"
proof -
  from assms(1) obtain ws where zs: "zs = ys @ ws" by (auto simp: prefix_def)
  from assms(2,3) have "take (a + l) ys = take (a + l) zs"
    by (auto simp: zs)
  then show ?thesis by (simp add: slice_drop_take)
qed

lemma getCities_healthy:
  assumes url: "getSiteURL d = Inr u"
    and healthy: "\<And>p. p < k \<Longrightarrow>
             cities_range client (p * pageSize) ((p + 1) * pageSize - 1)
               = CitiesResult (Some (B p)) None \<and> length (B p) = pageSize"
    and stop: "(k = maxPages \<and> T = []) \<or>
               (k < maxPages \<and>
                (\<exists>data err. cities_range client (k * pageSize) ((k + 1) * pageSize - 1)
                               = CitiesResult data err \<and>
                   ((err \<noteq> None \<and> T = []) \<or> (err = None \<and> data = None \<and> T = []) \<or>
                    (err = None \<and> data = Some T \<and> length T < pageSize))))"
  shows "getCitiesForSitemap slugf d (Some client) offset limit =
           Inr (slice (dedupedCities slugf d u (concat (map B [0..<k]) @ T)) offset (offset + limit))"
proof -
  from fetchLoop_healthy [where page = 0 and st = "({}, [])" and need = "offset + limit"
      and slugf = slugf and d = d and u = u, OF healthy stop]
  obtain st' where
    r: "fetchLoop slugf d u client (offset + limit) 0 ({}, []) = Inr st'"
    and p: "prefix (snd st')
              (snd (fold (dedupStep slugf d u) (concat (map B [0..<k]) @ T) ({}, [])))"
    and e: "offset + limit \<le> length (snd st') \<or>
            snd st' = snd (fold (dedupStep slugf d u) (concat (map B [0..<k]) @ T) ({}, []))"
    by auto
  have f: "snd (fold (dedupStep slugf d u) (concat (map B [0..<k]) @ T) ({}, []))
             = dedupedCities slugf d u (concat (map B [0..<k]) @ T)"
    by (simp add: snd_fold_dedupStep dedupedCities_def del: fold_append)
  from slice_of_enough [OF p e, of offset limit]
  have "slice (snd st') offset (offset + limit)
          = slice (dedupedCities slugf d u (concat (map B [0..<k]) @ T)) offset (offset + limit)"
    unfolding f by simp
  with url r show ?thesis by (simp add: getCitiesForSitemap_def)
qed

section \<open>The fetcher on a stable table\<close>

lemma concat_chunks:
  "concat (map (\<lambda>p. take m (drop (p * m) xs)) [0..<k]) = take (k * m) xs"
proof (induction k)
  case 0
  then show ?case by simp
next
  case (Suc k)
  have "Suc k * m = k * m + m" by simp
  then have "take (Suc k * m) xs = take (k * m) xs @ take m (drop (k * m) xs)"
    by (simp only: take_add)
  with Suc show ?case by simp
qed

lemma table_range:
  "cities_range (table_client rows sts) (p * pageSize) ((p + 1) * pageSize - 1)
     = CitiesResult (Some (take pageSize (drop (p * pageSize) rows))) None"
proof -
  have "(p + 1) * pageSize - 1 + 1 - p * pageSize = pageSize"
    by (simp add: pageSize_def)
  then show ?thesis by (simp add: table_client_def)
qed

lemma getCities_table:
  assumes url: "getSiteURL d = Inr u"
  shows "getCitiesForSitemap slugf d (Some (table_client rows sts)) offset limit =
           Inr (slice (dedupedCities slugf d u (take (maxPages * pageSize) rows))
                  offset (offset + limit))"
proof -
  define k where "k = min maxPages (length rows div pageSize)"
  define B where "B = (\<lambda>p. take pageSize (drop (p * pageSize) rows))"
  define T where "T = (if k = maxPages then [] else drop (k * pageSize) rows)"
  have ps: "0 < pageSize" by (simp add: pageSize_def)
  have healthy: "cities_range (table_client rows sts) (p * pageSize) ((p + 1) * pageSize - 1)
               = CitiesResult (Some (B p)) None \<and> length (B p) = pageSize" if "p < k" for p
  proof -
    from that have "p < length rows div pageSize" by (simp add: k_def)
    then have "p + 1 \<le> length rows div pageSize" by simp
    then have "(p + 1) * pageSize \<le> length rows div pageSize * pageSize"
      by (rule mult_le_mono1)
    also have "\<dots> \<le> length rows" by simp
    finally have "pageSize \<le> length rows - p * pageSize" by simp
    then have "length (B p) = pageSize" by (simp add: B_def)
    with table_range [of rows sts p] show ?thesis by (simp add: B_def)
  qed
  have stop: "(k = maxPages \<and> T = []) \<or>
               (k < maxPages \<and>
                (\<exists>data err. cities_range (table_client rows sts) (k * pageSize) ((k + 1) * pageSize - 1)
                               = CitiesResult data err \<and>
                   ((err \<noteq> None \<and> T = []) \<or> (err = None \<and> data = None \<and> T = []) \<or>
                    (err = None \<and> data = Some T \<and> length T < pageSize))))"
  proof (cases "k = maxPages")
    case True
    then show ?thesis by (simp add: T_def)
  next
    case False
    then have k: "k = length rows div pageSize" "k < maxPages" by (auto simp: k_def)
    have T: "T = drop (k * pageSize) rows" using False by (simp add: T_def)
    have "length rows - k * pageSize = length rows mod pageSize"
      unfolding k by (simp add: minus_div_mult_eq_mod)
    then have lt: "length T < pageSize" unfolding T using ps by simp
    then have tk: "take pageSize T = T" by simp
    have q: "cities_range (table_client rows sts) (k * pageSize) ((k + 1) * pageSize - 1)
               = CitiesResult (Some T) None"
      using table_range [of rows sts k] unfolding T [symmetric] tk .
    from k(2) q lt show ?thesis by blast
  qed
  have all: "concat (map B [0..<k]) @ T = take (maxPages * pageSize) rows"
  proof (cases "k = maxPages")
    case True
    then show ?thesis by (simp add: T_def B_def concat_chunks)
  next
    case False
    then have k: "k = length rows div pageSize" "k < maxPages" by (auto simp: k_def)
    then have "length rows div pageSize + 1 \<le> maxPages" by simp
    then have "(length rows div pageSize + 1) * pageSize \<le> maxPages * pageSize"
      by (rule mult_le_mono1)
    moreover have "length rows < (length rows div pageSize + 1) * pageSize"
      using ps by (simp add: dividend_less_div_times)
    ultimately have "length rows \<le> maxPages * pageSize" by simp
    then have "take (maxPages * pageSize) rows = rows" by simp
    moreover have "concat (map B [0..<k]) @ T = rows"
      using False by (simp add: T_def B_def concat_chunks)
    ultimately show ?thesis by simp
  qed
  from getCities_healthy [where slugf = slugf and offset = offset and limit = limit,
      OF url healthy stop]
  show ?thesis unfolding all by simp
qed

section \<open>What the fetcher returns\<close>


lemma slice_subseq: "subseq (slice xs a b) xs"
proof -
  have "prefix (take (b - a) (drop a xs)) (drop a xs)" by (rule take_is_prefix)
  then have "subseq (take (b - a) (drop a xs)) (drop a xs)" by (rule prefix_imp_subseq)
  moreover have "suffix (drop a xs) xs" by (rule suffix_drop)
  ultimately show ?thesis unfolding slice_def by (rule list_emb_suffix)
qed

lemma slice_distinct_map: "distinct (map f xs) \<Longrightarrow> distinct (map f (slice xs a b))"
  by (simp add: slice_def take_map [symmetric] drop_map [symmetric] distinct_take distinct_drop)




lemma getCities_cases:
  assumes "getCitiesForSitemap slugf d supabase offset limit = Inr cities"
  obtains u where "getSiteURL d = Inr u" "cities = []"
  | u client n where "getSiteURL d = Inr u" "supabase = Some client" "n \<le> maxPages"
      "cities = slice (dedupedCities slugf d u (concat (map (pageRows client) [0..<n])))
                  offset (offset + limit)"
proof (cases "getSiteURL d")
  case (Inl e)
  with assms show ?thesis by (simp add: getCitiesForSitemap_def)
next
  case (Inr u)
  note url = this
  show ?thesis
  proof (cases supabase)
    case None
    with url assms have "cities = []" by (simp add: getCitiesForSitemap_def)
    with url that(1) show ?thesis by blast
  next
    case (Some client)
    show ?thesis
    proof (cases "fetchLoop slugf d u client (offset + limit) 0 ({}, [])")
      case (Inl x)
      with url Some assms have "cities = []" by (simp add: getCitiesForSitemap_def)
      with url that(1) show ?thesis by blast
    next
      case (Inr st')
      from fetchLoop_fetched [OF Inr] obtain n where n: "n \<le> maxPages"
        "st' = fold (dedupStep slugf d u) (concat (map (pageRows client) [0..<n])) ({}, [])"
        by auto
      from n(2) have "snd st' = dedupedCities slugf d u (concat (map (pageRows client) [0..<n]))"
        by (simp add: snd_fold_dedupStep dedupedCities_def)
      with url Some Inr assms
      have "cities = slice (dedupedCities slugf d u (concat (map (pageRows client) [0..<n])))
                  offset (offset + limit)"
        by (simp add: getCitiesForSitemap_def)
      with url Some n(1) that(2) show ?thesis by blast
    qed
  qed
qed

lemma getCities_never_raises:
  "getSiteURL d = Inr u \<Longrightarrow> \<exists>cities. getCitiesForSitemap slugf d supabase offset limit = Inr cities"
  by (simp add: getCitiesForSitemap_def split: option.split sum.split)

text \<open>
  Claim C1. Whatever the client answers, the records returned have pairwise different
  canonical URLs and form a subsequence of the valid rows in the order in which the data
  source yields them, page after page.
\<close>

theorem fetched_cities_distinct_in_order:
  "getCitiesForSitemap slugf d supabase offset limit = Inr cities \<Longrightarrow>
   \<exists>u. getSiteURL d = Inr u
      \<and> distinct (map (recordUrl slugf d u) cities)
      \<and> subseq cities (validCities (sourceRows supabase))"
proof -
  assume a: "getCitiesForSitemap slugf d supabase offset limit = Inr cities"
  from a show ?thesis
  proof (cases rule: getCities_cases)
    case (1 u)
    then show ?thesis by simp
  next
    case (2 u client n)
    let ?X = "concat (map (pageRows client) [0..<n])"
    have d: "distinct (map (recordUrl slugf d u) cities)"
      unfolding 2(4) dedupedCities_def by (intro slice_distinct_map firstBy_distinct)
    have "[0..<maxPages] = [0..<n] @ [n..<maxPages]"
      using 2(3) by (metis le_add_diff_inverse upt_add_eq_append zero_le)
    then have "sourceRows supabase = ?X @ concat (map (pageRows client) [n..<maxPages])"
      using 2(2) by (simp add: sourceRows_def)
    then have v: "validCities (sourceRows supabase)
                    = validCities ?X @ validCities (concat (map (pageRows client) [n..<maxPages]))"
      by (simp add: validCities_append)
    have "subseq cities (dedupedCities slugf d u ?X)"
      unfolding 2(4) by (rule slice_subseq)
    moreover have "subseq (dedupedCities slugf d u ?X) (validCities ?X)"
      unfolding dedupedCities_def by (rule firstBy_subseq)
    ultimately have "subseq cities (validCities ?X)" by (rule subseq_order.trans)
    then have "subseq cities (validCities (sourceRows supabase))"
      unfolding v by (rule subseq_rev_drop_many)
    with d 2(1) show ?thesis by blast
  qed
qed


lemma phones_site:
  "getSiteURL \<lparr> data_domain = Some ''phones.org'', data_useSubdomains = None \<rparr>
     = Inr ''https://phones.org''"
proof -
  have "\<not> str_includes ''phones.org'' ''example''" by code_simp
  then show ?thesis by (simp add: getSiteURL_eq getDomain_cases)
qed

theorem fetched_cities_distinct_in_order_witness:
  "getCitiesForSitemap toLowerCase
     \<lparr> data_domain = Some ''phones.org'', data_useSubdomains = None \<rparr>
     (Some (table_client
        [CityRow (Some ''Mobile'') (Some (StateRef (Some ''AL''))),
         CityRow (Some ''MOBILE'') (Some (StateRef (Some ''al''))),
         CityRow (Some ''Nome'') (Some (StateRef (Some ''AK'')))] []))
     0 10
   = Inr [\<lparr> name = ''Mobile'', state_abbr = ''AL'' \<rparr>, \<lparr> name = ''Nome'', state_abbr = ''AK'' \<rparr>]
   \<and> (\<exists>u. getSiteURL \<lparr> data_domain = Some ''phones.org'', data_useSubdomains = None \<rparr> = Inr u
        \<and> distinct (map (recordUrl toLowerCase
                           \<lparr> data_domain = Some ''phones.org'', data_useSubdomains = None \<rparr> u)
                      [\<lparr> name = ''Mobile'', state_abbr = ''AL'' \<rparr>,
                       \<lparr> name = ''Nome'', state_abbr = ''AK'' \<rparr>]))"
proof -
  have e: "getCitiesForSitemap toLowerCase
     \<lparr> data_domain = Some ''phones.org'', data_useSubdomains = None \<rparr>
     (Some (table_client
        [CityRow (Some ''Mobile'') (Some (StateRef (Some ''AL''))),
         CityRow (Some ''MOBILE'') (Some (StateRef (Some ''al''))),
         CityRow (Some ''Nome'') (Some (StateRef (Some ''AK'')))] []))
     0 10
   = Inr [\<lparr> name = ''Mobile'', state_abbr = ''AL'' \<rparr>, \<lparr> name = ''Nome'', state_abbr = ''AK'' \<rparr>]"
    by code_simp
  from fetched_cities_distinct_in_order [OF e] e show ?thesis by blast
qed






lemma validCities_replicate:
  "rowCity r = Some c \<Longrightarrow> validCities (replicate n r) = replicate n c"
  by (induction n) (simp_all add: validCities_def)

lemma firstBy_replicate:
  "firstBy key seen (replicate n x) = (if n = 0 \<or> key x \<in> seen then [] else [x])"
proof (induction n arbitrary: seen)
  case 0
  then show ?case by simp
next
  case (Suc n)
  show ?case by (simp add: Suc)
qed

lemma nome_row:
  "rowCity (CityRow (Some ''Nome'') (Some (StateRef (Some ''AK''))))
     = Some \<lparr> name = ''Nome'', state_abbr = ''AK'' \<rparr>"
  by (simp add: rowCity_def)

lemma nome_page:
  "fold (dedupStep toLowerCase \<lparr> data_domain = Some ''phones.org'', data_useSubdomains = None \<rparr>
           ''https://phones.org'')
     (replicate 1000 (CityRow (Some ''Nome'') (Some (StateRef (Some ''AK''))))) ({}, [])
   = ({recordUrl toLowerCase \<lparr> data_domain = Some ''phones.org'', data_useSubdomains = None \<rparr>
         ''https://phones.org'' \<lparr> name = ''Nome'', state_abbr = ''AK'' \<rparr>},
      [\<lparr> name = ''Nome'', state_abbr = ''AK'' \<rparr>])"
  by (simp only: fold_dedupStep validCities_replicate [OF nome_row] firstBy_replicate) simp

text \<open>
  Claim C6 fails on the code. The data source answers page 0 with a full batch and fails
  on page 1. When the failure is reported in the result object the fetcher returns the
  record deduplicated so far; when the same failure is thrown by the query, the
  \<open>catch\<close> block returns the empty sequence and the record is lost.
\<close>

theorem fetch_throw_drops_partial:
  "getCitiesForSitemap toLowerCase
     \<lparr> data_domain = Some ''phones.org'', data_useSubdomains = None \<rparr>
     (Some (scripted_client
        [CitiesResult (Some (replicate 1000 (CityRow (Some ''Nome'') (Some (StateRef (Some ''AK'')))))) None,
         CitiesThrows]))
     0 10
   = Inr []
   \<and> getCitiesForSitemap toLowerCase
     \<lparr> data_domain = Some ''phones.org'', data_useSubdomains = None \<rparr>
     (Some (scripted_client
        [CitiesResult (Some (replicate 1000 (CityRow (Some ''Nome'') (Some (StateRef (Some ''AK'')))))) None,
         CitiesResult None (Some ''timeout'')]))
     0 10
   = Inr [\<lparr> name = ''Nome'', state_abbr = ''AK'' \<rparr>]"
proof -
  let ?d = "\<lparr> data_domain = Some ''phones.org'', data_useSubdomains = None \<rparr>"
  let ?u = "''https://phones.org''"
  let ?rows = "replicate 1000 (CityRow (Some ''Nome'') (Some (StateRef (Some ''AK''))))"
  let ?st1 = "({recordUrl toLowerCase ?d ?u \<lparr> name = ''Nome'', state_abbr = ''AK'' \<rparr>},
               [\<lparr> name = ''Nome'', state_abbr = ''AK'' \<rparr>])"
  define T where "T = scripted_client [CitiesResult (Some ?rows) None, CitiesThrows]"
  define E where
    "E = scripted_client [CitiesResult (Some ?rows) None, CitiesResult None (Some ''timeout'')]"
  have tq: "cities_range T 0 999 = CitiesResult (Some ?rows) None"
    "cities_range T 1000 1999 = CitiesThrows"
    by (simp_all add: T_def scripted_client_def pageSize_def)
  have eq: "cities_range E 0 999 = CitiesResult (Some ?rows) None"
    "cities_range E 1000 1999 = CitiesResult None (Some ''timeout'')"
    by (simp_all add: E_def scripted_client_def pageSize_def)
  have t1: "fetchLoop toLowerCase ?d ?u T 10 1 ?st1 = Inl ()"
    by (subst fetchLoop_step) (simp add: tq pageSize_def maxPages_def)
  have t0: "fetchLoop toLowerCase ?d ?u T 10 0 ({}, []) = Inl ()"
    by (subst fetchLoop_step)
       (simp add: tq pageSize_def maxPages_def nome_page t1 [simplified] del: fold_replicate)
  have e1: "fetchLoop toLowerCase ?d ?u E 10 1 ?st1 = Inr ?st1"
    by (subst fetchLoop_step) (simp add: eq pageSize_def maxPages_def)
  have e0: "fetchLoop toLowerCase ?d ?u E 10 0 ({}, []) = Inr ?st1"
    by (subst fetchLoop_step)
       (simp add: eq pageSize_def maxPages_def nome_page e1 [simplified] del: fold_replicate)
  show ?thesis
    unfolding T_def [symmetric] E_def [symmetric]
    by (simp add: getCitiesForSitemap_def phones_site t0 e0 slice_def)
qed

section \<open>Numbers in route parameters\<close>

lemma of_char_digit_char: "d < 10 \<Longrightarrow> (of_char (digit_char d) :: nat) = 48 + d"
  by (simp add: digit_char_def)

lemma is_digit_digit_char: "d < 10 \<Longrightarrow> is_digit (digit_char d)"
  by (simp add: is_digit_def of_char_digit_char)

lemma show_nat_digits: "\<forall>c \<in> set (show_nat n). is_digit c"
proof (induction n rule: show_nat.induct)
  case (1 n)
  show ?case
  proof (cases "n < 10")
    case True
    then show ?thesis by (subst show_nat.simps) (simp add: is_digit_digit_char)
  next
    case False
    with 1 show ?thesis by (subst show_nat.simps) (simp add: is_digit_digit_char)
  qed
qed

lemma show_nat_nonempty: "show_nat n \<noteq> []"
  by (subst show_nat.simps) simp

lemma digits_val_snoc:
  "digits_val (s @ [c]) = 10 * digits_val s + ((of_char c :: nat) - 48)"
  by (simp add: digits_val_def)

lemma digits_val_show_nat: "digits_val (show_nat n) = n"
proof (induction n rule: show_nat.induct)
  case (1 n)
  show ?case
  proof (cases "n < 10")
    case True
    then have "show_nat n = [digit_char n]" by (subst show_nat.simps) simp
    with True show ?thesis by (simp add: digits_val_def of_char_digit_char)
  next
    case False
    then have "show_nat n = show_nat (n div 10) @ [digit_char (n mod 10)]"
      by (subst show_nat.simps) simp
    with False 1 show ?thesis by (simp add: digits_val_snoc of_char_digit_char)
  qed
qed

lemma parseInt10_digits:
  assumes "s \<noteq> []" and "\<forall>c \<in> set s. is_digit c"
  shows "parseInt10 s = Some (int (digits_val s))"
proof -
  from assms obtain c r where s: "s = c # r" by (cases s) auto
  with assms have dc: "is_digit c" by simp
  then have ns: "\<not> is_space c" and nm: "c \<noteq> CHR ''-''" and np: "c \<noteq> CHR ''+''"
    by (auto simp: is_digit_def is_space_def Let_def)
  from ns have dw: "dropWhile is_space s = s" by (simp add: s)
  from assms(2) have tw: "takeWhile is_digit s = s" by (simp add: takeWhile_eq_all_conv)
  show ?thesis
    unfolding parseInt10_def Let_def dw using nm np tw assms(1) by (simp add: s)
qed

lemma parseInt10_show_nat: "parseInt10 (show_nat n) = Some (int n)"
  using parseInt10_digits [OF show_nat_nonempty show_nat_digits, of n]
  by (simp add: digits_val_show_nat)

lemma show_nat_not_main: "show_nat n \<noteq> ''main''"
proof
  assume "show_nat n = ''main''"
  with show_nat_digits [of n] have "is_digit CHR ''m''" by simp
  then show False by (simp add: is_digit_def)
qed

section \<open>The sitemap index document\<close>

lemma indexLoop_closed:
  "indexLoop u today n i xml =
     xml @ concat (map (\<lambda>j. sitemap_entry (u @ ''/sitemap-'' @ show_nat j @ ''.xml'') today)
                    [i..<n + 2])"
proof (induction u today n i xml rule: indexLoop.induct)
  case (1 u today n i xml)
  show ?case
  proof (cases "i \<le> n + 1")
    case True
    then have "[i..<n + 2] = i # [i + 1..<n + 2]" by (simp add: upt_conv_Cons)
    with True 1 show ?thesis by (subst indexLoop.simps) simp
  next
    case False
    then show ?thesis by (subst indexLoop.simps) simp
  qed
qed

lemma tag_values_skip:
  "CHR ''<'' \<notin> set v \<Longrightarrow> tag_values (CHR ''<'' # t) (v @ rest) = tag_values (CHR ''<'' # t) rest"
  by (induction v) auto

lemma takeWhile_stop:
  "c \<notin> set v \<Longrightarrow> takeWhile (\<lambda>x. x \<noteq> c) (v @ c # rest) = v"
  by (induction v) auto

lemma sitemap_entry_loc:
  assumes "CHR ''<'' \<notin> set loc" and "CHR ''<'' \<notin> set today"
  shows "tag_values ''<loc>'' (sitemap_entry loc today @ rest) = loc # tag_values ''<loc>'' rest"
  using assms
  by (simp add: sitemap_entry_def NL_def tag_values_skip takeWhile_stop)

lemma sitemap_entry_lastmod:
  assumes "CHR ''<'' \<notin> set loc" and "CHR ''<'' \<notin> set today"
  shows "tag_values ''<lastmod>'' (sitemap_entry loc today @ rest)
           = today # tag_values ''<lastmod>'' rest"
  using assms
  by (simp add: sitemap_entry_def NL_def tag_values_skip takeWhile_stop)

lemma sitemap_entry_sitemap:
  assumes "CHR ''<'' \<notin> set loc" and "CHR ''<'' \<notin> set today"
  shows "length (tag_values ''<sitemap>'' (sitemap_entry loc today @ rest))
           = Suc (length (tag_values ''<sitemap>'' rest))"
  using assms
  by (simp add: sitemap_entry_def NL_def tag_values_skip takeWhile_stop)


lemma index_entries_loc:
  assumes "\<forall>loc \<in> set locs. CHR ''<'' \<notin> set loc" and "CHR ''<'' \<notin> set today"
  shows "tag_values ''<loc>'' (concat (map (\<lambda>loc. sitemap_entry loc today) locs) @ rest)
           = locs @ tag_values ''<loc>'' rest"
  using assms by (induction locs) (simp_all add: sitemap_entry_loc)

lemma index_entries_lastmod:
  assumes "\<forall>loc \<in> set locs. CHR ''<'' \<notin> set loc" and "CHR ''<'' \<notin> set today"
  shows "tag_values ''<lastmod>'' (concat (map (\<lambda>loc. sitemap_entry loc today) locs) @ rest)
           = replicate (length locs) today @ tag_values ''<lastmod>'' rest"
  using assms by (induction locs) (simp_all add: sitemap_entry_lastmod)

lemma index_entries_sitemap:
  assumes "\<forall>loc \<in> set locs. CHR ''<'' \<notin> set loc" and "CHR ''<'' \<notin> set today"
  shows "length (tag_values ''<sitemap>''
                   (concat (map (\<lambda>loc. sitemap_entry loc today) locs) @ rest))
           = length locs + length (tag_values ''<sitemap>'' rest)"
  using assms by (induction locs) (simp_all add: sitemap_entry_sitemap)

lemma index_header_skipped:
  "tag_values ''<loc>'' (xml_decl @ ''<sitemapindex '' @ sitemaps_ns @ ''>'' @ NL @ rest)
     = tag_values ''<loc>'' rest"
  "tag_values ''<lastmod>'' (xml_decl @ ''<sitemapindex '' @ sitemaps_ns @ ''>'' @ NL @ rest)
     = tag_values ''<lastmod>'' rest"
  "tag_values ''<sitemap>'' (xml_decl @ ''<sitemapindex '' @ sitemaps_ns @ ''>'' @ NL @ rest)
     = tag_values ''<sitemap>'' rest"
  by (simp_all add: xml_decl_def sitemaps_ns_def DQ_def NL_def)

lemma index_footer_empty:
  "tag_values ''<loc>'' ''</sitemapindex>'' = []"
  "tag_values ''<lastmod>'' ''</sitemapindex>'' = []"
  "tag_values ''<sitemap>'' ''</sitemapindex>'' = []"
  by simp_all

lemma show_nat_no_lt: "CHR ''<'' \<notin> set (show_nat i)"
proof
  assume "CHR ''<'' \<in> set (show_nat i)"
  with show_nat_digits [of i] have "is_digit CHR ''<''" by blast
  then show False by (simp add: is_digit_def)
qed

lemma sitemapIndexXML_entries:
  "sitemapIndexXML u today f =
     xml_decl @ ''<sitemapindex '' @ sitemaps_ns @ ''>'' @ NL @
     concat (map (\<lambda>loc. sitemap_entry loc today)
               ((u @ ''/sitemap-main.xml'') #
                map (\<lambda>i. u @ ''/sitemap-'' @ show_nat i @ ''.xml'') [2..<f + 2])) @
     ''</sitemapindex>''"
  unfolding sitemapIndexXML_def Let_def indexLoop_closed
  by (simp only: list.map concat.simps map_map comp_def append_assoc)


lemma citySitemapCount_range: "1 \<le> citySitemapCount supabase \<and> citySitemapCount supabase \<le> 10"
  by (simp add: citySitemapCount_def calcSitemapCount_div URLS_PER_SITEMAP_def
      split: option.split count_result.split)

text \<open>
  Claim C9. For every file count the index document is the XML declaration, the opening
  tag, one \<open><sitemap>\<close> entry for the main file followed by one entry per file number
  from 2 to the file count plus one, and the closing tag, each entry with its \<open><loc>\<close>
  and the same \<open><lastmod>\<close>. Read back from the document (the site URL and the date
  being free of \<open><\<close>), the \<open><loc>\<close> values are exactly these, in this order, there
  are as many \<open><sitemap>\<close> entries as the file count plus one, and every \<open><lastmod>\<close>
  is the date. The handler computes a file count between 1 and 10 and takes the date from
  the part of the clock's UTC ISO string before \<open>T\<close>.
\<close>

theorem index_document_entries:
  "sitemapIndexXML u today f =
     ''<?xml version='' @ [CHR 0x22] @ ''1.0'' @ [CHR 0x22] @ '' encoding='' @ [CHR 0x22] @
     ''UTF-8'' @ [CHR 0x22] @ ''?>'' @ [CHR 0x0A] @
     ''<sitemapindex xmlns='' @ [CHR 0x22] @ ''http://www.sitemaps.org/schemas/sitemap/0.9'' @
     [CHR 0x22] @ ''>'' @ [CHR 0x0A] @
     concat (map (\<lambda>loc. ''  <sitemap>'' @ [CHR 0x0A] @
                         ''    <loc>'' @ loc @ ''</loc>'' @ [CHR 0x0A] @
                         ''    <lastmod>'' @ today @ ''</lastmod>'' @ [CHR 0x0A] @
                         ''  </sitemap>'' @ [CHR 0x0A])
               ((u @ ''/sitemap-main.xml'') #
                map (\<lambda>i. u @ ''/sitemap-'' @ show_nat i @ ''.xml'') [2..<f + 2])) @
     ''</sitemapindex>''
   \<and> (CHR ''<'' \<notin> set u \<and> CHR ''<'' \<notin> set today \<longrightarrow>
        tag_values ''<loc>'' (sitemapIndexXML u today f)
          = (u @ ''/sitemap-main.xml'') #
            map (\<lambda>i. u @ ''/sitemap-'' @ show_nat i @ ''.xml'') [2..<f + 2]
        \<and> tag_values ''<lastmod>'' (sitemapIndexXML u today f) = replicate (f + 1) today
        \<and> length (tag_values ''<sitemap>'' (sitemapIndexXML u today f)) = f + 1)
   \<and> 1 \<le> citySitemapCount supabase \<and> citySitemapCount supabase \<le> 10
   \<and> (getSiteURL d = Inr u \<and> CHR ''T'' \<notin> set day \<longrightarrow>
        GET_sitemap_index d (day @ ''T'' @ time) supabase =
          Inr \<lparr> status = 200,
                body = sitemapIndexXML u day (citySitemapCount supabase),
                headers = [(''Content-Type'', ''application/xml''),
                           (''Cache-Control'', ''public, max-age=3600'')] \<rparr>)"
proof -
  let ?locs = "(u @ ''/sitemap-main.xml'') #
               map (\<lambda>i. u @ ''/sitemap-'' @ show_nat i @ ''.xml'') [2..<f + 2]"
  have 1: "sitemapIndexXML u today f =
     ''<?xml version='' @ [CHR 0x22] @ ''1.0'' @ [CHR 0x22] @ '' encoding='' @ [CHR 0x22] @
     ''UTF-8'' @ [CHR 0x22] @ ''?>'' @ [CHR 0x0A] @
     ''<sitemapindex xmlns='' @ [CHR 0x22] @ ''http://www.sitemaps.org/schemas/sitemap/0.9'' @
     [CHR 0x22] @ ''>'' @ [CHR 0x0A] @
     concat (map (\<lambda>loc. ''  <sitemap>'' @ [CHR 0x0A] @
                         ''    <loc>'' @ loc @ ''</loc>'' @ [CHR 0x0A] @
                         ''    <lastmod>'' @ today @ ''</lastmod>'' @ [CHR 0x0A] @
                         ''  </sitemap>'' @ [CHR 0x0A])
               ?locs) @
     ''</sitemapindex>''"
  proof -
    have e: "(\<lambda>loc. sitemap_entry loc today)
               = (\<lambda>loc. ''  <sitemap>'' @ [CHR 0x0A] @
                         ''    <loc>'' @ loc @ ''</loc>'' @ [CHR 0x0A] @
                         ''    <lastmod>'' @ today @ ''</lastmod>'' @ [CHR 0x0A] @
                         ''  </sitemap>'' @ [CHR 0x0A])"
      by (rule ext) (simp add: sitemap_entry_def NL_def)
    show ?thesis
      unfolding sitemapIndexXML_entries e
      by (simp add: xml_decl_def sitemaps_ns_def DQ_def NL_def)
  qed
  have len: "length ?locs = f + 1"
  proof -
    have "length [2..<f + 2] = f" by (simp only: length_upt diff_add_inverse2)
    then show ?thesis by (simp only: length_Cons length_map Suc_eq_plus1)
  qed
  have 2: "tag_values ''<loc>'' (sitemapIndexXML u today f) = ?locs
        \<and> tag_values ''<lastmod>'' (sitemapIndexXML u today f) = replicate (f + 1) today
        \<and> length (tag_values ''<sitemap>'' (sitemapIndexXML u today f)) = f + 1"
    if h: "CHR ''<'' \<notin> set u \<and> CHR ''<'' \<notin> set today"
  proof -
    have l: "\<forall>loc \<in> set ?locs. CHR ''<'' \<notin> set loc"
      using h show_nat_no_lt by auto
    from h have t: "CHR ''<'' \<notin> set today" by simp
    have a: "tag_values ''<loc>'' (sitemapIndexXML u today f) = ?locs"
      unfolding sitemapIndexXML_entries
      by (simp only: index_header_skipped index_entries_loc [OF l t] index_footer_empty
          append_Nil2)
    have b: "tag_values ''<lastmod>'' (sitemapIndexXML u today f) = replicate (f + 1) today"
      unfolding sitemapIndexXML_entries
      by (simp only: index_header_skipped index_entries_lastmod [OF l t] index_footer_empty
          append_Nil2 len)
    have "length (tag_values ''<sitemap>''
                    (concat (map (\<lambda>loc. sitemap_entry loc today) ?locs) @ ''</sitemapindex>''))
            = length ?locs + length (tag_values ''<sitemap>'' ''</sitemapindex>'')"
      by (rule index_entries_sitemap [OF l t])
    also have "\<dots> = f + 1"
      unfolding len by (simp only: index_footer_empty list.size add_0_right)
    finally have c: "length (tag_values ''<sitemap>'' (sitemapIndexXML u today f)) = f + 1"
      unfolding sitemapIndexXML_entries by (simp only: index_header_skipped)
    from a b c show ?thesis by blast
  qed
  have 3: "GET_sitemap_index d (day @ ''T'' @ time) supabase =
          Inr \<lparr> status = 200,
                body = sitemapIndexXML u day (citySitemapCount supabase),
                headers = [(''Content-Type'', ''application/xml''),
                           (''Cache-Control'', ''public, max-age=3600'')] \<rparr>"
    if h: "getSiteURL d = Inr u \<and> CHR ''T'' \<notin> set day"
  proof -
    from h have "today_of (day @ ''T'' @ time) = day"
      unfolding today_of_def by (simp add: takeWhile_append)
    with h show ?thesis by (simp add: GET_sitemap_index_def xml_response_def)
  qed
  from 1 2 3 citySitemapCount_range [of supabase] show ?thesis by blast
qed


theorem index_document_entries_witness:
  "GET_sitemap_index \<lparr> data_domain = Some ''phones.org'', data_useSubdomains = None \<rparr>
     (''2026-11-03'' @ ''T'' @ ''05:04:00.000Z'') None
   = Inr \<lparr> status = 200,
           body = sitemapIndexXML ''https://phones.org'' ''2026-11-03'' 4,
           headers = [(''Content-Type'', ''application/xml''),
                      (''Cache-Control'', ''public, max-age=3600'')] \<rparr>
   \<and> tag_values ''<loc>'' (sitemapIndexXML ''https://phones.org'' ''2026-11-03'' 4)
       = [''https://phones.org/sitemap-main.xml'', ''https://phones.org/sitemap-2.xml'',
          ''https://phones.org/sitemap-3.xml'', ''https://phones.org/sitemap-4.xml'',
          ''https://phones.org/sitemap-5.xml'']
   \<and> tag_values ''<lastmod>'' (sitemapIndexXML ''https://phones.org'' ''2026-11-03'' 4)
       = [''2026-11-03'', ''2026-11-03'', ''2026-11-03'', ''2026-11-03'', ''2026-11-03'']
   \<and> length (tag_values ''<sitemap>'' (sitemapIndexXML ''https://phones.org'' ''2026-11-03'' 4))
       = 5"
proof -
  have u: "getSiteURL \<lparr> data_domain = Some ''phones.org'', data_useSubdomains = None \<rparr>
             = Inr ''https://phones.org''"
    by (rule phones_site)
  have t: "CHR ''T'' \<notin> set ''2026-11-03''" by simp
  have n: "CHR ''<'' \<notin> set ''https://phones.org'' \<and> CHR ''<'' \<notin> set ''2026-11-03''" by simp
  have c: "citySitemapCount None = 4" by (simp add: citySitemapCount_def)
  have m: "map (\<lambda>i. ''https://phones.org'' @ ''/sitemap-'' @ show_nat i @ ''.xml'') [2..<4 + 2]
             = [''https://phones.org/sitemap-2.xml'', ''https://phones.org/sitemap-3.xml'',
                ''https://phones.org/sitemap-4.xml'', ''https://phones.org/sitemap-5.xml'']"
    by code_simp
  have r: "replicate (4 + 1) ''2026-11-03''
             = [''2026-11-03'', ''2026-11-03'', ''2026-11-03'', ''2026-11-03'', ''2026-11-03'']"
    by code_simp
  note i = index_document_entries [of "''https://phones.org''" "''2026-11-03''" 4 None
       "\<lparr> data_domain = Some ''phones.org'', data_useSubdomains = None \<rparr>" "''2026-11-03''"
       "''05:04:00.000Z''"]
  from i u t have 1: "GET_sitemap_index \<lparr> data_domain = Some ''phones.org'', data_useSubdomains = None \<rparr>
     (''2026-11-03'' @ ''T'' @ ''05:04:00.000Z'') None
   = Inr \<lparr> status = 200,
           body = sitemapIndexXML ''https://phones.org'' ''2026-11-03'' 4,
           headers = [(''Content-Type'', ''application/xml''),
                      (''Cache-Control'', ''public, max-age=3600'')] \<rparr>"
    unfolding c by blast
  from i n have 2: "tag_values ''<loc>'' (sitemapIndexXML ''https://phones.org'' ''2026-11-03'' 4)
          = (''https://phones.org'' @ ''/sitemap-main.xml'') #
            map (\<lambda>i. ''https://phones.org'' @ ''/sitemap-'' @ show_nat i @ ''.xml'') [2..<4 + 2]"
    and 3: "tag_values ''<lastmod>'' (sitemapIndexXML ''https://phones.org'' ''2026-11-03'' 4)
          = replicate (4 + 1) ''2026-11-03''"
    and 4: "length (tag_values ''<sitemap>'' (sitemapIndexXML ''https://phones.org'' ''2026-11-03'' 4))
          = 4 + 1"
    by blast+
  from 1 2 3 4 show ?thesis unfolding m r by simp
qed

section \<open>The numbered sitemap route\<close>

lemma renderStep_eq:
  "renderStep slugf d u today c (seen, xml) =
     (if recordUrl slugf d u c \<in> seen then (seen, xml)
      else (insert (recordUrl slugf d u c) seen,
            xml @ url_entry (recordUrl slugf d u c) today ''weekly'' ''0.8''))"
  by (simp add: renderStep_def recordUrl_def Let_def)

lemma fold_renderStep:
  "fold (renderStep slugf d u today) cities (seen, xml) =
     (seen \<union> recordUrl slugf d u ` set cities,
      xml @ concat (map (\<lambda>loc. url_entry loc today ''weekly'' ''0.8'')
                     (map (recordUrl slugf d u) (firstBy (recordUrl slugf d u) seen cities))))"
proof (induction cities arbitrary: seen xml)
  case Nil
  then show ?case by simp
next
  case (Cons c cities)
  show ?case
  proof (cases "recordUrl slugf d u c \<in> seen")
    case True
    then have "seen \<union> recordUrl slugf d u ` set (c # cities)
                 = seen \<union> recordUrl slugf d u ` set cities" by auto
    with True Cons show ?thesis
      by (simp add: renderStep_eq)
  next
    case False
    with Cons show ?thesis
      by (simp add: renderStep_eq)
  qed
qed

lemma generateCitySitemapXML_document:
  "getSiteURL d = Inr u \<Longrightarrow>
   generateCitySitemapXML slugf d now cities =
     Inr (cityDocument (today_of now)
            (map (recordUrl slugf d u) (firstBy (recordUrl slugf d u) {} cities)))"
  by (simp add: generateCitySitemapXML_def fold_renderStep cityDocument_def Let_def)

lemma GET_num_invalid:
  assumes "getSiteURL d = Inr u" and "num \<noteq> Some ''main''"
    and "parseInt10 (case num of None \<Rightarrow> ''2'' | Some s \<Rightarrow> if s = [] then ''2'' else s) = None
         \<or> (\<exists>n. parseInt10 (case num of None \<Rightarrow> ''2'' | Some s \<Rightarrow> if s = [] then ''2'' else s)
                  = Some n \<and> n < 2)"
  shows "GET_sitemap_num slugf d now supabase num
           = Inr (text_response ''Invalid sitemap number'' 404)"
  using assms by (auto simp: GET_sitemap_num_def)

lemma GET_num_chunk:
  assumes url: "getSiteURL d = Inr u" and "num \<noteq> Some ''main''"
    and "parseInt10 (case num of None \<Rightarrow> ''2'' | Some s \<Rightarrow> if s = [] then ''2'' else s) = Some n"
    and "2 \<le> n"
    and "getCitiesForSitemap slugf d supabase (nat (n - 2) * URLS_PER_SITEMAP) URLS_PER_SITEMAP
           = Inr cities"
  shows "GET_sitemap_num slugf d now supabase num
           = Inr (xml_response (cityDocument (today_of now)
                    (map (recordUrl slugf d u) (firstBy (recordUrl slugf d u) {} cities))))"
  using assms by (simp add: GET_sitemap_num_def generateCitySitemapXML_document Let_def)


lemma phones_today: "today_of ''2026-11-03T05:04:00.000Z'' = ''2026-11-03''"
  by (simp add: today_of_def)

text \<open>
  Claim C5 fails on the code. The identifier \<open>2abc\<close> is not a valid integer, yet
  \<open>parseInt\<close> reads its leading digit and ignores the rest, so the request passes the
  check that answers \<open>Invalid sitemap number\<close> and is served the document of chunk 2
  with status 200. The identifier \<open>abc\<close> is answered 404.
\<close>

theorem chunk_2abc_is_served:
  "GET_sitemap_num toLowerCase \<lparr> data_domain = Some ''phones.org'', data_useSubdomains = None \<rparr>
     ''2026-11-03T05:04:00.000Z''
     (Some (table_client [CityRow (Some ''Nome'') (Some (StateRef (Some ''AK'')))] []))
     (Some ''2abc'')
   = Inr \<lparr> status = 200,
           body =
             ''<?xml version='' @ [CHR 0x22] @ ''1.0'' @ [CHR 0x22] @ '' encoding='' @ [CHR 0x22] @
             ''UTF-8'' @ [CHR 0x22] @ ''?>'' @ [CHR 0x0A] @
             ''<urlset xmlns='' @ [CHR 0x22] @ ''http://www.sitemaps.org/schemas/sitemap/0.9'' @
             [CHR 0x22] @ ''>'' @ [CHR 0x0A] @
             ''  <url>'' @ [CHR 0x0A] @
             ''    <loc>https://phones.org/ak/nome/</loc>'' @ [CHR 0x0A] @
             ''    <lastmod>2026-11-03</lastmod>'' @ [CHR 0x0A] @
             ''    <changefreq>weekly</changefreq>'' @ [CHR 0x0A] @
             ''    <priority>0.8</priority>'' @ [CHR 0x0A] @
             ''  </url>'' @ [CHR 0x0A] @
             ''</urlset>'',
           headers = [(''Content-Type'', ''application/xml''),
                      (''Cache-Control'', ''public, max-age=3600'')] \<rparr>
   \<and> GET_sitemap_num toLowerCase \<lparr> data_domain = Some ''phones.org'', data_useSubdomains = None \<rparr>
       ''2026-11-03T05:04:00.000Z''
       (Some (table_client [CityRow (Some ''Nome'') (Some (StateRef (Some ''AK'')))] []))
       (Some ''abc'')
     = Inr \<lparr> status = 404, body = ''Invalid sitemap number'', headers = [] \<rparr>"
  by code_simp

section \<open>The chunk documents of a stable table\<close>

lemma reachable_distinct:
  "distinct (map (recordUrl slugf d u) (reachableCities slugf d u rows))"
  by (simp add: reachableCities_def dedupedCities_def firstBy_distinct)

lemma reachable_length:
  "length (reachableCities slugf d u rows) \<le> min (maxPages * pageSize) (length rows)"
proof -
  have "length (reachableCities slugf d u rows)
          \<le> length (validCities (take (maxPages * pageSize) rows))"
    unfolding reachableCities_def dedupedCities_def by (rule firstBy_length)
  also have "\<dots> \<le> length (take (maxPages * pageSize) rows)" by (rule validCities_length)
  finally show ?thesis by simp
qed

lemma GET_num_table:
  assumes url: "getSiteURL d = Inr u"
  shows "GET_sitemap_num slugf d now (Some (table_client rows sts)) (Some (show_nat (i + 2)))
           = Inr (xml_response (cityDocument (today_of now) (chunkLocs slugf d u rows i)))"
proof -
  let ?R = "reachableCities slugf d u rows"
  let ?S = "slice ?R (i * URLS_PER_SITEMAP) (i * URLS_PER_SITEMAP + URLS_PER_SITEMAP)"
  have nm: "Some (show_nat (i + 2)) \<noteq> Some ''main''" by (simp add: show_nat_not_main)
  have p: "parseInt10 (case Some (show_nat (i + 2)) of None \<Rightarrow> ''2''
                        | Some s \<Rightarrow> if s = [] then ''2'' else s) = Some (int (i + 2))"
    by (simp add: show_nat_nonempty parseInt10_show_nat)
  have n: "2 \<le> int (i + 2)" by simp
  have o: "nat (int (i + 2) - 2) = i" by simp
  have c: "getCitiesForSitemap slugf d (Some (table_client rows sts))
             (nat (int (i + 2) - 2) * URLS_PER_SITEMAP) URLS_PER_SITEMAP = Inr ?S"
    unfolding o by (simp only: getCities_table [OF url] reachableCities_def)
  have "distinct (map (recordUrl slugf d u) ?S)"
    by (intro slice_distinct_map reachable_distinct)
  then have f: "firstBy (recordUrl slugf d u) {} ?S = ?S"
    by (rule firstBy_distinct_id) simp
  from GET_num_chunk [OF url nm p n c, of now] show ?thesis
    by (simp only: f chunkLocs_def)
qed

lemma chunks_concat:
  assumes "length xs \<le> f * m"
  shows "concat (map (\<lambda>i. map g (slice xs (i * m) (i * m + m))) [0..<f]) = map g xs"
proof -
  have "concat (map (\<lambda>i. map g (slice xs (i * m) (i * m + m))) [0..<f])
          = map g (concat (map (\<lambda>i. take m (drop (i * m) xs)) [0..<f]))"
    by (simp add: map_concat slice_def comp_def)
  also have "\<dots> = map g (take (f * m) xs)" by (simp only: concat_chunks)
  also have "\<dots> = map g xs" using assms by simp
  finally show ?thesis .
qed

lemma file_count_covers:
  "min (maxPages * pageSize) n \<le> calcSitemapCount URLS_PER_SITEMAP n * URLS_PER_SITEMAP"
proof -
  let ?q = "(n + 9999) div 10000"
  have f: "calcSitemapCount 10000 n = max 1 (min 10 ?q)"
    by (simp add: calcSitemapCount_div)
  have "n + 9999 < 10000 + ?q * 10000" by (rule dividend_less_div_times) simp
  then have q: "n \<le> ?q * 10000" by simp
  have "min 50000 n \<le> max 1 (min 10 ?q) * 10000"
  proof (cases "10 \<le> ?q")
    case True
    then show ?thesis by simp
  next
    case False
    then have "?q \<le> max 1 (min 10 ?q)" by simp
    then have "?q * 10000 \<le> max 1 (min 10 ?q) * 10000" by (rule mult_le_mono1)
    with q have "n \<le> max 1 (min 10 ?q) * 10000" by (rule le_trans)
    then show ?thesis by simp
  qed
  then show ?thesis
    unfolding URLS_PER_SITEMAP_def maxPages_def pageSize_def f by simp
qed

lemma table_file_count:
  "citySitemapCount (Some (table_client rows sts)) = calcSitemapCount URLS_PER_SITEMAP (length rows)"
  by (simp add: citySitemapCount_def table_client_def)

lemma nome_kenai:
  "rowCity (CityRow (Some ''Nome'') (Some (StateRef (Some ''AK''))))
     = Some \<lparr> name = ''Nome'', state_abbr = ''AK'' \<rparr>"
  "rowCity (CityRow (Some ''Kenai'') (Some (StateRef (Some ''AK''))))
     = Some \<lparr> name = ''Kenai'', state_abbr = ''AK'' \<rparr>"
  "recordUrl toLowerCase \<lparr> data_domain = Some ''phones.org'', data_useSubdomains = None \<rparr>
     ''https://phones.org'' \<lparr> name = ''Nome'', state_abbr = ''AK'' \<rparr>
     = ''https://phones.org/ak/nome/''"
  "recordUrl toLowerCase \<lparr> data_domain = Some ''phones.org'', data_useSubdomains = None \<rparr>
     ''https://phones.org'' \<lparr> name = ''Kenai'', state_abbr = ''AK'' \<rparr>
     = ''https://phones.org/ak/kenai/''"
  by code_simp+

text \<open>
  Claim C4 fails on the code. On a stable table of 50,001 rows the index announces 6 city
  files and the URL of the last row belongs to the deduplicated URL set, but the
  \<open><loc>\<close> values read from documents 2 to 7 never contain it: the fetcher stops after
  50 pages of 1000 rows, while the index counts on files of 10,000 rows up to 100,000.
\<close>

theorem city_chunks_miss_row_50001:
  "citySitemapCount
     (Some (table_client
          (replicate 50000 (CityRow (Some ''Nome'') (Some (StateRef (Some ''AK''))))
           @ [CityRow (Some ''Kenai'') (Some (StateRef (Some ''AK'')))]) [])) = 6
   \<and> map (recordUrl toLowerCase \<lparr> data_domain = Some ''phones.org'', data_useSubdomains = None \<rparr>
            ''https://phones.org'')
       (dedupedCities toLowerCase \<lparr> data_domain = Some ''phones.org'', data_useSubdomains = None \<rparr>
          ''https://phones.org''
          (replicate 50000 (CityRow (Some ''Nome'') (Some (StateRef (Some ''AK''))))
           @ [CityRow (Some ''Kenai'') (Some (StateRef (Some ''AK'')))]))
     = [''https://phones.org/ak/nome/'', ''https://phones.org/ak/kenai/'']
   \<and> map_sum id (tag_values ''<loc>'' \<circ> body)
       (GET_sitemap_num toLowerCase \<lparr> data_domain = Some ''phones.org'', data_useSubdomains = None \<rparr>
          ''2026-11-03T05:04:00.000Z''
          (Some (table_client
          (replicate 50000 (CityRow (Some ''Nome'') (Some (StateRef (Some ''AK''))))
           @ [CityRow (Some ''Kenai'') (Some (StateRef (Some ''AK'')))]) []))
          (Some ''2''))
     = Inr [''https://phones.org/ak/nome/'']
   \<and> map_sum id (tag_values ''<loc>'' \<circ> body)
       (GET_sitemap_num toLowerCase \<lparr> data_domain = Some ''phones.org'', data_useSubdomains = None \<rparr>
          ''2026-11-03T05:04:00.000Z''
          (Some (table_client
          (replicate 50000 (CityRow (Some ''Nome'') (Some (StateRef (Some ''AK''))))
           @ [CityRow (Some ''Kenai'') (Some (StateRef (Some ''AK'')))]) []))
          (Some ''3''))
     = Inr []
   \<and> map_sum id (tag_values ''<loc>'' \<circ> body)
       (GET_sitemap_num toLowerCase \<lparr> data_domain = Some ''phones.org'', data_useSubdomains = None \<rparr>
          ''2026-11-03T05:04:00.000Z''
          (Some (table_client
          (replicate 50000 (CityRow (Some ''Nome'') (Some (StateRef (Some ''AK''))))
           @ [CityRow (Some ''Kenai'') (Some (StateRef (Some ''AK'')))]) []))
          (Some ''4''))
     = Inr []
   \<and> map_sum id (tag_values ''<loc>'' \<circ> body)
       (GET_sitemap_num toLowerCase \<lparr> data_domain = Some ''phones.org'', data_useSubdomains = None \<rparr>
          ''2026-11-03T05:04:00.000Z''
          (Some (table_client
          (replicate 50000 (CityRow (Some ''Nome'') (Some (StateRef (Some ''AK''))))
           @ [CityRow (Some ''Kenai'') (Some (StateRef (Some ''AK'')))]) []))
          (Some ''5''))
     = Inr []
   \<and> map_sum id (tag_values ''<loc>'' \<circ> body)
       (GET_sitemap_num toLowerCase \<lparr> data_domain = Some ''phones.org'', data_useSubdomains = None \<rparr>
          ''2026-11-03T05:04:00.000Z''
          (Some (table_client
          (replicate 50000 (CityRow (Some ''Nome'') (Some (StateRef (Some ''AK''))))
           @ [CityRow (Some ''Kenai'') (Some (StateRef (Some ''AK'')))]) []))
          (Some ''6''))
     = Inr []
   \<and> map_sum id (tag_values ''<loc>'' \<circ> body)
       (GET_sitemap_num toLowerCase \<lparr> data_domain = Some ''phones.org'', data_useSubdomains = None \<rparr>
          ''2026-11-03T05:04:00.000Z''
          (Some (table_client
          (replicate 50000 (CityRow (Some ''Nome'') (Some (StateRef (Some ''AK''))))
           @ [CityRow (Some ''Kenai'') (Some (StateRef (Some ''AK'')))]) []))
          (Some ''7''))
     = Inr []"
proof -
  let ?d = "\<lparr> data_domain = Some ''phones.org'', data_useSubdomains = None \<rparr>"
  let ?u = "''https://phones.org''"
  let ?nome = "CityRow (Some ''Nome'') (Some (StateRef (Some ''AK'')))"
  let ?kenai = "CityRow (Some ''Kenai'') (Some (StateRef (Some ''AK'')))"
  let ?rows = "replicate 50000 ?nome @ [?kenai]"
  let ?now = "''2026-11-03T05:04:00.000Z''"
  have vk: "validCities [?kenai] = [\<lparr> name = ''Kenai'', state_abbr = ''AK'' \<rparr>]"
    by (simp add: validCities_def nome_kenai)
  have 1: "citySitemapCount (Some (table_client ?rows [])) = 6"
    by (simp add: table_file_count calcSitemapCount_div URLS_PER_SITEMAP_def)
  have 2: "map (recordUrl toLowerCase ?d ?u) (dedupedCities toLowerCase ?d ?u ?rows)
             = [''https://phones.org/ak/nome/'', ''https://phones.org/ak/kenai/'']"
    by (simp add: dedupedCities_def validCities_append validCities_replicate [OF nome_kenai(1)]
        vk firstBy_append firstBy_replicate nome_kenai)
  have "take (maxPages * pageSize) ?rows = replicate 50000 ?nome"
    by (simp add: maxPages_def pageSize_def)
  then have r: "reachableCities toLowerCase ?d ?u ?rows = [\<lparr> name = ''Nome'', state_abbr = ''AK'' \<rparr>]"
    by (simp add: reachableCities_def dedupedCities_def validCities_replicate [OF nome_kenai(1)]
        firstBy_replicate)
  have c0: "chunkLocs toLowerCase ?d ?u ?rows 0 = [''https://phones.org/ak/nome/'']"
    by (simp add: chunkLocs_def r slice_def URLS_PER_SITEMAP_def nome_kenai)
  have c: "chunkLocs toLowerCase ?d ?u ?rows i = []" if "0 < i" for i
    using that by (simp add: chunkLocs_def r slice_def URLS_PER_SITEMAP_def)
  have cs: "chunkLocs toLowerCase ?d ?u ?rows 1 = []" "chunkLocs toLowerCase ?d ?u ?rows 2 = []"
    "chunkLocs toLowerCase ?d ?u ?rows 3 = []" "chunkLocs toLowerCase ?d ?u ?rows 4 = []"
    "chunkLocs toLowerCase ?d ?u ?rows 5 = []"
    by (rule c, simp)+
  have s: "show_nat (0 + 2) = ''2''" "show_nat (1 + 2) = ''3''" "show_nat (2 + 2) = ''4''"
    "show_nat (3 + 2) = ''5''" "show_nat (4 + 2) = ''6''" "show_nat (5 + 2) = ''7''"
    by code_simp+
  note g = GET_num_table [OF phones_site, of toLowerCase ?now ?rows "[]"]
  have g2: "GET_sitemap_num toLowerCase ?d ?now (Some (table_client ?rows [])) (Some ''2'')
              = Inr (xml_response (cityDocument ''2026-11-03'' [''https://phones.org/ak/nome/'']))"
    using g [of 0] by (simp only: s c0 phones_today)
  have g3: "GET_sitemap_num toLowerCase ?d ?now (Some (table_client ?rows [])) (Some ''3'')
              = Inr (xml_response (cityDocument ''2026-11-03'' []))"
    using g [of 1] by (simp only: s cs phones_today)
  have g4: "GET_sitemap_num toLowerCase ?d ?now (Some (table_client ?rows [])) (Some ''4'')
              = Inr (xml_response (cityDocument ''2026-11-03'' []))"
    using g [of 2] by (simp only: s cs phones_today)
  have g5: "GET_sitemap_num toLowerCase ?d ?now (Some (table_client ?rows [])) (Some ''5'')
              = Inr (xml_response (cityDocument ''2026-11-03'' []))"
    using g [of 3] by (simp only: s cs phones_today)
  have g6: "GET_sitemap_num toLowerCase ?d ?now (Some (table_client ?rows [])) (Some ''6'')
              = Inr (xml_response (cityDocument ''2026-11-03'' []))"
    using g [of 4] by (simp only: s cs phones_today)
  have g7: "GET_sitemap_num toLowerCase ?d ?now (Some (table_client ?rows [])) (Some ''7'')
              = Inr (xml_response (cityDocument ''2026-11-03'' []))"
    using g [of 5] by (simp only: s cs phones_today)

  have r1: "tag_values ''<loc>'' (cityDocument ''2026-11-03'' [''https://phones.org/ak/nome/''])
              = [''https://phones.org/ak/nome/'']"
    by code_simp
  have r0: "tag_values ''<loc>'' (cityDocument ''2026-11-03'' []) = []"
    by code_simp
  from 1 2 show ?thesis
    by (simp only: g2 g3 g4 g5 g6 g7 map_sum.simps id_apply comp_apply xml_response_def
        response.simps r1 r0 simp_thms)
qed

section \<open>Subdomain URLs and their parser\<close>

text \<open>
  Claim C10 fails on the code. With subdomain mode enabled and the domain configured as
  \<open>Phones.org\<close>, which \<open>getSiteURL\<close> accepts, the city URL of slug \<open>wayne\<close> and state
  \<open>MI\<close> is \<open>https://wayne-mi.Phones.org/\<close>. Its host name is \<open>wayne-mi.phones.org\<close> as
  a URL parser reports it, in lower case; the parser lower-cases the host it is given but
  compares it with the domain as configured, and so returns \<open>null\<close> for the host in
  either spelling. With the domain configured in lower case the same host parses to the
  slug and the lower-cased state.
\<close>

theorem subdomain_round_trip_fails_on_case:
  "getSiteURL \<lparr> data_domain = Some ''Phones.org'', data_useSubdomains = Some True \<rparr>
     = Inr ''https://Phones.org''
   \<and> useSubdomains \<lparr> data_domain = Some ''Phones.org'', data_useSubdomains = Some True \<rparr>
   \<and> getCitySubdomainURL \<lparr> data_domain = Some ''Phones.org'', data_useSubdomains = Some True \<rparr>
       ''wayne'' ''MI''
     = ''https://wayne-mi.Phones.org/''
   \<and> parseSubdomain \<lparr> data_domain = Some ''Phones.org'', data_useSubdomains = Some True \<rparr>
       ''wayne-mi.phones.org''
     = None
   \<and> parseSubdomain \<lparr> data_domain = Some ''Phones.org'', data_useSubdomains = Some True \<rparr>
       ''wayne-mi.Phones.org''
     = None
   \<and> parseSubdomain \<lparr> data_domain = Some ''phones.org'', data_useSubdomains = Some True \<rparr>
       ''wayne-mi.phones.org''
     = Some \<lparr> city = ''wayne'', state = ''mi'' \<rparr>"
  by code_simp

end
